theory Spec2Isabelle
  imports Main "HOL-Library.AList"
begin

section \<open>Python values\<close>

text \<open>
  The client and the record transformer work on the values \<open>response.json()\<close> returns:
  \<open>None\<close>, booleans, integers, strings, lists and dictionaries with string keys.
  A dictionary is the list of its items in insertion order; a lookup takes the first
  item with the key (\<open>map_of\<close>), a store replaces the value of that item or appends a
  new one (\<open>AList.update\<close>), and iteration skips items shadowed by an earlier one
  (\<open>AList.clearjunk\<close>), so every list denotes exactly one dictionary.
  Numbers with a fractional part are not part of the model.
\<close>

datatype json =
    JNull
  | JBool bool
  | JInt int
  | JStr string
  | JList "json list"
  | JObj "(string \<times> json) list"

text \<open>
  Exceptions are values. \<open>SystemExit n\<close> is what \<open>exit(n)\<close> raises; \<open>KeyError k\<close>
  carries the missing key; \<open>OtherError name\<close> is any other exception, by its name.
\<close>

datatype error =
    KeyError json
  | IndexError
  | TypeError
  | AttributeError
  | AssertionError
  | ValueError
  | OverflowError
  | SystemExit int
  | OtherError string

text \<open>
  Log records: the level and the pieces of the formatted message, where \<open>Quoted s\<close>
  is the string \<open>s\<close> between apostrophes.
\<close>

datatype level = DEBUG | INFO | ERROR

datatype part = Txt string | Quoted string | Val json | Num nat

type_synonym log_record = "level \<times> part list"

subsection \<open>Strings\<close>

text \<open>\<open>s.startswith(p)\<close>.\<close>

fun starts_with :: "string \<Rightarrow> string \<Rightarrow> bool" where
  "starts_with [] s = True"
| "starts_with (p # ps) [] = False"
| "starts_with (p # ps) (c # cs) = (p = c \<and> starts_with ps cs)"

text \<open>\<open>p in s\<close> for two strings: \<open>p\<close> occurs in \<open>s\<close> as a substring.\<close>

fun str_contains :: "string \<Rightarrow> string \<Rightarrow> bool" where
  "str_contains p [] = (p = [])"
| "str_contains p (c # cs) = (starts_with p (c # cs) \<or> str_contains p cs)"

text \<open>\<open>sep.join(xs)\<close> for a list of strings.\<close>

fun join :: "string \<Rightarrow> string list \<Rightarrow> string" where
  "join sep [] = []"
| "join sep [x] = x"
| "join sep (x # y # ys) = x @ sep @ join sep (y # ys)"

text \<open>
  \<open>s.replace(old, new)\<close>: every occurrence of \<open>old\<close>, found from left to right
  without overlap, is replaced. With an empty \<open>old\<close>, \<open>new\<close> is put before every
  character and at the end.
\<close>

function str_replace :: "string \<Rightarrow> string \<Rightarrow> string \<Rightarrow> string" where
  "str_replace old new [] = (if old = [] then new else [])"
| "str_replace old new (c # cs) =
     (if old = [] then new @ c # str_replace old new cs
      else if starts_with old (c # cs)
        then new @ str_replace old new (drop (length old) (c # cs))
      else c # str_replace old new cs)"
  by pat_completeness auto
termination
  by (relation "measure (\<lambda>(old, new, s). length s)") (auto simp: neq_Nil_conv)

subsection \<open>Operations on values\<close>

text \<open>\<open>key in x\<close> for a string \<open>key\<close>.\<close>

fun py_contains :: "string \<Rightarrow> json \<Rightarrow> error + bool" where
  "py_contains key (JObj kvs) = Inr (key \<in> set (map fst kvs))"
| "py_contains key (JList xs) = Inr (JStr key \<in> set xs)"
| "py_contains key (JStr s) = Inr (str_contains key s)"
| "py_contains key _ = Inl TypeError"

text \<open>\<open>x[key]\<close> for a string \<open>key\<close>: only a dictionary can be subscripted by a string.\<close>

fun py_getitem :: "json \<Rightarrow> string \<Rightarrow> error + json" where
  "py_getitem (JObj kvs) key =
     (case map_of kvs key of None \<Rightarrow> Inl (KeyError (JStr key)) | Some v \<Rightarrow> Inr v)"
| "py_getitem _ key = Inl TypeError"

text \<open>\<open>x[0]\<close>.\<close>

fun py_getitem0 :: "json \<Rightarrow> error + json" where
  "py_getitem0 (JList xs) = (case xs of [] \<Rightarrow> Inl IndexError | x # _ \<Rightarrow> Inr x)"
| "py_getitem0 (JStr s) = (case s of [] \<Rightarrow> Inl IndexError | c # _ \<Rightarrow> Inr (JStr [c]))"
| "py_getitem0 (JObj kvs) = Inl (KeyError (JInt 0))"
| "py_getitem0 _ = Inl TypeError"

text \<open>\<open>x.get(key, default)\<close>: a method of dictionaries only.\<close>

fun py_get :: "json \<Rightarrow> string \<Rightarrow> json \<Rightarrow> error + json" where
  "py_get (JObj kvs) key dflt =
     Inr (case map_of kvs key of None \<Rightarrow> dflt | Some v \<Rightarrow> v)"
| "py_get _ key dflt = Inl AttributeError"

text \<open>The elements \<open>for e in x\<close> visits: a dictionary yields its keys, a string its characters.\<close>

fun py_iter :: "json \<Rightarrow> error + json list" where
  "py_iter (JList xs) = Inr xs"
| "py_iter (JObj kvs) = Inr (map (JStr \<circ> fst) (AList.clearjunk kvs))"
| "py_iter (JStr s) = Inr (map (\<lambda>c. JStr [c]) s)"
| "py_iter _ = Inl TypeError"

text \<open>\<open>len(x)\<close>.\<close>

fun py_len :: "json \<Rightarrow> error + nat" where
  "py_len (JList xs) = Inr (length xs)"
| "py_len (JObj kvs) = Inr (length (AList.clearjunk kvs))"
| "py_len (JStr s) = Inr (length s)"
| "py_len _ = Inl TypeError"

text \<open>
  \<open>result.extend(x)\<close>: \<open>extend\<close> is a method of lists only, and the attribute is looked
  up before the argument is evaluated, so the argument is passed as a computation.
\<close>

fun py_extend :: "json \<Rightarrow> error + json \<Rightarrow> error + json" where
  "py_extend (JList xs) arg =
     (case arg of Inl e \<Rightarrow> Inl e
      | Inr x \<Rightarrow> (case py_iter x of Inl e \<Rightarrow> Inl e | Inr ys \<Rightarrow> Inr (JList (xs @ ys))))"
| "py_extend _ arg = Inl AttributeError"

text \<open>
  A value used as a dictionary key or as a set element is hashed: lists and dictionaries
  are unhashable. \<open>True\<close> and \<open>1\<close> are the same key, and so are \<open>False\<close> and \<open>0\<close>; a
  key is kept as the integer.
\<close>

fun py_key :: "json \<Rightarrow> error + json" where
  "py_key (JList xs) = Inl TypeError"
| "py_key (JObj kvs) = Inl TypeError"
| "py_key (JBool b) = Inr (JInt (if b then 1 else 0))"
| "py_key x = Inr x"

text \<open>\<open>d[key] = value\<close> on a dictionary with string keys.\<close>

fun py_setitem :: "json \<Rightarrow> string \<Rightarrow> json \<Rightarrow> error + json" where
  "py_setitem (JObj kvs) key v = Inr (JObj (AList.update key v kvs))"
| "py_setitem _ key v = Inl TypeError"

section \<open>Libraries\<close>

text \<open>
  The functions of \<open>datetime\<close>, \<open>pytz\<close>, \<open>dateutil\<close> and \<open>core_data_modules\<close> that
  the code calls are parameters of the model, over any type \<open>'dt\<close> of datetime objects:
  \<^item> \<open>astimezone_utc d\<close> is \<open>d.astimezone(pytz.utc)\<close>,
  \<^item> \<open>isoformat d\<close> is \<open>d.isoformat()\<close>,
  \<^item> \<open>isoparse x\<close> is \<open>dateutil.parser.isoparse(x)\<close>,
  \<^item> \<open>validate_utc_iso_string s\<close> is \<open>validators.validate_utc_iso_string(s)\<close>, which
    returns or raises,
  \<^item> \<open>get_call_location\<close> is \<open>Metadata.get_call_location()\<close> at its one call site,
  \<^item> \<open>utc_now_as_iso_string n\<close> is what the \<open>n\<close>-th call (from 0) of
    \<open>TimeUtils.utc_now_as_iso_string()\<close> returns.
\<close>

datatype 'dt library = Library
  (astimezone_utc: "'dt \<Rightarrow> error + 'dt")
  (isoformat: "'dt \<Rightarrow> string")
  (isoparse: "json \<Rightarrow> error + 'dt")
  (validate_utc_iso_string: "string \<Rightarrow> error + unit")
  (get_call_location: string)
  (utc_now_as_iso_string: "nat \<Rightarrow> string")

section \<open>The API client\<close>

text \<open>
  The methods of \<open>FacebookClient\<close> take the object's \<open>_access_token\<close> as the argument
  \<open>access_token\<close>, and the log written so far as \<open>lg\<close>, which they return extended.
  A leading underscore of a Python name is dropped.
\<close>

text \<open>\<open>FacebookClient._date_to_facebook_time\<close>.\<close>

definition date_to_facebook_time :: "'dt library \<Rightarrow> 'dt \<Rightarrow> error + string" where
  "date_to_facebook_time lib date =
     (case astimezone_utc lib date of
        Inl e \<Rightarrow> Inl e
      | Inr utc \<Rightarrow> Inr (str_replace ''+00:00'' ''Z'' (isoformat lib utc)))"

text \<open>
  Request parameters are a dictionary from strings to values. The network is a
  parameter: \<open>http_get url params\<close> is the outcome of \<open>requests.get(url, params)\<close>
  followed by \<open>response.json()\<close>, either an exception or the parsed body. The body of one
  response is parsed afresh at every \<open>response.json()\<close>, always to the same value.
\<close>

type_synonym params = "(string \<times> json) list"

type_synonym network = "json \<Rightarrow> params \<Rightarrow> error + json"

definition BASE_URL :: string where
  "BASE_URL = ''https://graph.facebook.com/v8.0''"

definition MAX_RESULTS_PER_PAGE :: int where
  "MAX_RESULTS_PER_PAGE = 100"

definition missing_data_record :: "json \<Rightarrow> log_record" where
  "missing_data_record body =
     (ERROR, [Txt ''Response from Facebook did not contain a '', Quoted ''data'', Txt '' field. '',
              Txt ''The returned data is probably an error message: '', Val body])"

text \<open>\<open>FacebookClient._make_get_request\<close>.\<close>

definition make_get_request :: "network \<Rightarrow> string \<Rightarrow> string \<Rightarrow> params \<Rightarrow> error + json" where
  "make_get_request http_get access_token endpoint params =
     http_get (JStr (BASE_URL @ endpoint))
       (AList.update ''access_token'' (JStr access_token) params)"

text \<open>
  The body of the \<open>while\<close> loop of \<open>FacebookClient._make_paged_get_request\<close> on the
  parsed body of the page just fetched: the new \<open>result\<close> and the new \<open>next_url\<close>.
\<close>

definition paged_step :: "json \<Rightarrow> json \<Rightarrow> error + (json \<times> json)" where
  "paged_step result body =
     (case py_extend result (py_getitem body ''data'') of
        Inl e \<Rightarrow> Inl e
      | Inr result' \<Rightarrow>
          (case py_getitem body ''paging'' of
             Inl e \<Rightarrow> Inl e
           | Inr paging \<Rightarrow>
               (case py_get paging ''next'' JNull of
                  Inl e \<Rightarrow> Inl e
                | Inr next_url \<Rightarrow> Inr (result', next_url))))"

text \<open>
  The \<open>while next_url is not None\<close> loop. A cursor chain that never ends keeps the
  loop running: the loop is a partial function, and \<open>None\<close> is not returning.
\<close>

partial_function (option) paged_loop ::
  "network \<Rightarrow> log_record list \<Rightarrow> json \<Rightarrow> json \<Rightarrow> ((error + json) \<times> log_record list) option"
where
  "paged_loop http_get lg result next_url =
     (if next_url = JNull then Some (Inr result, lg)
      else
        (case http_get next_url [] of
           Inl e \<Rightarrow> Some (Inl e, lg)
         | Inr body \<Rightarrow>
             (case py_contains ''data'' body of
                Inl e \<Rightarrow> Some (Inl e, lg)
              | Inr has_data \<Rightarrow>
                  if \<not> has_data then Some (Inl (SystemExit 1), lg @ [missing_data_record body])
                  else
                    (case paged_step result body of
                       Inl e \<Rightarrow> Some (Inl e, lg)
                     | Inr (result', next_url') \<Rightarrow> paged_loop http_get lg result' next_url'))))"

text \<open>\<open>FacebookClient._make_paged_get_request\<close>.\<close>

definition make_paged_get_request ::
  "network \<Rightarrow> string \<Rightarrow> log_record list \<Rightarrow> string \<Rightarrow> params
     \<Rightarrow> ((error + json) \<times> log_record list) option"
where
  "make_paged_get_request http_get access_token lg endpoint params =
     (case http_get (JStr (BASE_URL @ endpoint))
             (AList.update ''access_token'' (JStr access_token) params) of
        Inl e \<Rightarrow> Some (Inl e, lg)
      | Inr body \<Rightarrow>
          (case py_contains ''data'' body of
             Inl e \<Rightarrow> Some (Inl e, lg)
           | Inr has_data \<Rightarrow>
               if \<not> has_data then Some (Inl (SystemExit 1), lg @ [missing_data_record body])
               else
                 (case py_getitem body ''data'' of
                    Inl e \<Rightarrow> Some (Inl e, lg)
                  | Inr result \<Rightarrow>
                      (case py_get body ''paging'' (JObj []) of
                         Inl e \<Rightarrow> Some (Inl e, lg)
                       | Inr paging \<Rightarrow>
                           (case py_get paging ''next'' JNull of
                              Inl e \<Rightarrow> Some (Inl e, lg)
                            | Inr next_url \<Rightarrow> paged_loop http_get lg result next_url)))))"


text \<open>\<open>FacebookClient.get_post\<close>.\<close>

definition get_post ::
  "network \<Rightarrow> string \<Rightarrow> log_record list \<Rightarrow> string \<Rightarrow> string list
     \<Rightarrow> (error + json) \<times> log_record list"
where
  "get_post http_get access_token lg post_id fields =
     (make_get_request http_get access_token (''/'' @ post_id)
        [(''fields'', JStr (join '','' fields))],
      lg @ [(INFO, [Txt ''Fetching post '', Quoted post_id, Txt ''...''])])"

text \<open>
  The parameters \<open>get_posts_published_by_page\<close> builds before its request: the
  dictionary literal, then \<open>since\<close>, then \<open>until\<close>.
\<close>

definition posts_params ::
  "'dt library \<Rightarrow> string list \<Rightarrow> 'dt option \<Rightarrow> 'dt option \<Rightarrow> error + params"
where
  "posts_params lib fields created_after created_before =
     (let params = [(''fields'', JStr (join '','' fields)),
                    (''limit'', JInt MAX_RESULTS_PER_PAGE)]
      in case (case created_after of
                 None \<Rightarrow> Inr params
               | Some date \<Rightarrow>
                   (case date_to_facebook_time lib date of
                      Inl e \<Rightarrow> Inl e
                    | Inr t \<Rightarrow> Inr (AList.update ''since'' (JStr t) params))) of
           Inl e \<Rightarrow> Inl e
         | Inr params \<Rightarrow>
             (case created_before of
                None \<Rightarrow> Inr params
              | Some date \<Rightarrow>
                  (case date_to_facebook_time lib date of
                     Inl e \<Rightarrow> Inl e
                   | Inr t \<Rightarrow> Inr (AList.update ''until'' (JStr t) params))))"

text \<open>The message \<open>log_str\<close> of \<open>get_posts_published_by_page\<close>, with the final dots.\<close>

definition posts_log_str :: "'dt library \<Rightarrow> string \<Rightarrow> 'dt option \<Rightarrow> 'dt option \<Rightarrow> part list" where
  "posts_log_str lib page_id created_after created_before =
     [Txt ''Fetching all posts published by page '', Quoted page_id]
     @ (case created_after of None \<Rightarrow> []
        | Some date \<Rightarrow> [Txt '', created after '', Txt (isoformat lib date)])
     @ (case created_before of None \<Rightarrow> []
        | Some date \<Rightarrow> [Txt '', created after '', Txt (isoformat lib date)])
     @ [Txt ''...'']"

text \<open>
  What follows a paged request in both callers: \<open>log.info\<close> of the number of records
  fetched, where \<open>len\<close> raises on a result that has no length.
\<close>

definition log_fetched ::
  "string \<Rightarrow> (error + json) \<times> log_record list \<Rightarrow> (error + json) \<times> log_record list"
where
  "log_fetched what r =
     (case r of
        (Inl e, lg) \<Rightarrow> (Inl e, lg)
      | (Inr records, lg) \<Rightarrow>
          (case py_len records of
             Inl e \<Rightarrow> (Inl e, lg)
           | Inr n \<Rightarrow> (Inr records, lg @ [(INFO, [Txt ''Fetched '', Num n, Txt what])])))"

text \<open>\<open>FacebookClient.get_posts_published_by_page\<close>.\<close>

definition get_posts_published_by_page ::
  "'dt library \<Rightarrow> network \<Rightarrow> string \<Rightarrow> log_record list \<Rightarrow> string \<Rightarrow> string list
     \<Rightarrow> 'dt option \<Rightarrow> 'dt option \<Rightarrow> ((error + json) \<times> log_record list) option"
where
  "get_posts_published_by_page lib http_get access_token lg page_id fields
       created_after created_before =
     (let lg = lg @ [(DEBUG, posts_log_str lib page_id created_after created_before)]
      in case posts_params lib fields created_after created_before of
           Inl e \<Rightarrow> Some (Inl e, lg)
         | Inr params \<Rightarrow>
             map_option (log_fetched '' posts'')
               (make_paged_get_request http_get access_token lg
                  (''/'' @ page_id @ ''/published_posts'') params))"

text \<open>
  \<open>FacebookClient.get_all_comments_on_post\<close>. The file \<open>raw_export_log_file\<close> is the
  list of what has been written to it: a value serialised by \<open>json.dump\<close>, or a string.
\<close>

datatype written = Dumped json | Written string

definition export_comments ::
  "written list option \<Rightarrow> (error + json) \<times> log_record list
     \<Rightarrow> (error + json) \<times> log_record list \<times> written list option"
where
  "export_comments raw_export_log_file r =
     (case r of
        (Inl e, lg) \<Rightarrow> (Inl e, lg, raw_export_log_file)
      | (Inr comments, lg) \<Rightarrow>
          (case raw_export_log_file of
             None \<Rightarrow>
               (Inr comments,
                lg @ [(DEBUG, [Txt ''Not logging the raw export (argument '',
                               Quoted ''raw_export_log_file'', Txt '' was None)''])],
                None)
           | Some file \<Rightarrow>
               (case py_len comments of
                  Inl e \<Rightarrow> (Inl e, lg, Some file)
                | Inr n \<Rightarrow>
                    (Inr comments,
                     lg @ [(INFO, [Txt ''Logging '', Num n, Txt '' fetched comments...'']),
                           (INFO, [Txt ''Logged fetched comments''])],
                     Some (file @ [Dumped comments, Written [CHR 0x0A]])))))"

definition get_all_comments_on_post ::
  "network \<Rightarrow> string \<Rightarrow> log_record list \<Rightarrow> string \<Rightarrow> string list \<Rightarrow> written list option
     \<Rightarrow> ((error + json) \<times> log_record list \<times> written list option) option"
where
  "get_all_comments_on_post http_get access_token lg post_id fields raw_export_log_file =
     map_option (\<lambda>r. export_comments raw_export_log_file (log_fetched '' comments'' r))
       (make_paged_get_request http_get access_token
          (lg @ [(INFO, [Txt ''Fetching all comments on post '', Quoted post_id, Txt ''...''])])
          (''/'' @ post_id @ ''/comments'')
          [(''fields'', JStr (join '','' fields)),
           (''limit'', JInt MAX_RESULTS_PER_PAGE),
           (''filter'', JStr ''stream'')])"

text \<open>\<open>FacebookClient.get_raw_metrics_for_post\<close>.\<close>

definition get_raw_metrics_for_post ::
  "network \<Rightarrow> string \<Rightarrow> string \<Rightarrow> string list \<Rightarrow> error + json"
where
  "get_raw_metrics_for_post http_get access_token post_id metrics =
     (case make_get_request http_get access_token
             (''/'' @ post_id @ ''/insights?metric='' @ join '','' metrics) [] of
        Inl e \<Rightarrow> Inl e
      | Inr body \<Rightarrow> py_getitem body ''data'')"

text \<open>
  The body of the \<open>for m in raw_metrics\<close> loop of \<open>get_metrics_for_post\<close>. The message
  of the assertion is formatted only when the assertion fails, and formatting it reads
  \<open>m['name']\<close> and \<open>len(m['values'])\<close>. In the assignment the right-hand side is evaluated
  before the key. \<open>cleaned_metrics\<close> is a dictionary whose keys are hashed values.
\<close>

definition clean_metric :: "(json \<times> json) list \<Rightarrow> json \<Rightarrow> error + (json \<times> json) list" where
  "clean_metric cleaned_metrics m =
     (case py_getitem m ''values'' of
        Inl e \<Rightarrow> Inl e
      | Inr values \<Rightarrow>
          (case py_len values of
             Inl e \<Rightarrow> Inl e
           | Inr n \<Rightarrow>
               if n \<noteq> 1 then
                 (case py_getitem m ''name'' of Inl e \<Rightarrow> Inl e | Inr name \<Rightarrow> Inl AssertionError)
               else
                 (case py_getitem0 values of
                    Inl e \<Rightarrow> Inl e
                  | Inr v0 \<Rightarrow>
                      (case py_getitem v0 ''value'' of
                         Inl e \<Rightarrow> Inl e
                       | Inr v \<Rightarrow>
                           (case py_getitem m ''name'' of
                              Inl e \<Rightarrow> Inl e
                            | Inr name \<Rightarrow>
                                (case py_key name of
                                   Inl e \<Rightarrow> Inl e
                                 | Inr k \<Rightarrow> Inr (AList.update k v cleaned_metrics)))))))"

fun clean_metrics :: "(json \<times> json) list \<Rightarrow> json list \<Rightarrow> error + (json \<times> json) list" where
  "clean_metrics cleaned_metrics [] = Inr cleaned_metrics"
| "clean_metrics cleaned_metrics (m # ms) =
     (case clean_metric cleaned_metrics m of
        Inl e \<Rightarrow> Inl e
      | Inr cleaned_metrics' \<Rightarrow> clean_metrics cleaned_metrics' ms)"

text \<open>\<open>FacebookClient.get_metrics_for_post\<close>.\<close>

definition get_metrics_for_post ::
  "network \<Rightarrow> string \<Rightarrow> string \<Rightarrow> string list \<Rightarrow> error + (json \<times> json) list"
where
  "get_metrics_for_post http_get access_token post_id metrics =
     (case get_raw_metrics_for_post http_get access_token post_id metrics of
        Inl e \<Rightarrow> Inl e
      | Inr raw_metrics \<Rightarrow>
          (case py_iter raw_metrics of
             Inl e \<Rightarrow> Inl e
           | Inr ms \<Rightarrow> clean_metrics [] ms))"

section \<open>The record transformer\<close>

text \<open>
  The body of the \<open>for attachment in ...\<close> loop of \<open>clean_post_type\<close>, from the
  \<open>post_type\<close> before it to the one after it (\<open>None\<close> is Python's \<open>None\<close>).
  \<open>attachment["type"]\<close> is read three times, always to the same value; membership in a
  set hashes it.
\<close>

definition clean_attachment :: "string option \<Rightarrow> json \<Rightarrow> error + string option" where
  "clean_attachment post_type attachment =
     (case py_getitem attachment ''type'' of
        Inl e \<Rightarrow> Inl e
      | Inr t \<Rightarrow>
          (case py_key t of
             Inl e \<Rightarrow> Inl e
           | Inr k \<Rightarrow>
               if k \<notin> {JStr ''video_inline'', JStr ''video_direct_response'', JStr ''photo''}
               then Inl AssertionError
               else if k \<in> {JStr ''video_inline'', JStr ''video_direct_response''} then
                 (if post_type \<in> {Some ''video'', None} then Inr (Some ''video'')
                  else Inl AssertionError)
               else if t = JStr ''photo'' then
                 (if post_type \<in> {Some ''photo'', None} then Inr (Some ''photo'')
                  else Inl AssertionError)
               else Inr post_type))"

fun clean_attachments :: "string option \<Rightarrow> json list \<Rightarrow> error + string option" where
  "clean_attachments post_type [] = Inr post_type"
| "clean_attachments post_type (attachment # attachments) =
     (case clean_attachment post_type attachment of
        Inl e \<Rightarrow> Inl e
      | Inr post_type' \<Rightarrow> clean_attachments post_type' attachments)"

text \<open>\<open>clean_post_type\<close>.\<close>

definition clean_post_type :: "json \<Rightarrow> error + string option" where
  "clean_post_type post =
     (case py_getitem post ''attachments'' of
        Inl e \<Rightarrow> Inl e
      | Inr attachments \<Rightarrow>
          (case py_getitem attachments ''data'' of
             Inl e \<Rightarrow> Inl e
           | Inr data \<Rightarrow>
               (case py_iter data of
                  Inl e \<Rightarrow> Inl e
                | Inr xs \<Rightarrow> clean_attachments None xs)))"

text \<open>
  \<open>TracedData\<close> and \<open>Metadata\<close> of \<open>core_data_modules\<close>: the data dictionary, and who
  produced it, where and when.
\<close>

datatype metadata = Metadata (md_user: string) (md_source: string) (md_timestamp: string)

datatype traced_data = TracedData (td_data: "(string \<times> json) list") (td_metadata: metadata)

text \<open>\<open>comment["from"]["id"]\<close>.\<close>

definition author_id :: "json \<Rightarrow> error + json" where
  "author_id comment =
     (case py_getitem comment ''from'' of Inl e \<Rightarrow> Inl e | Inr author \<Rightarrow> py_getitem author ''id'')"

text \<open>The set comprehension \<open>{comment["from"]["id"] for comment in raw_comments}\<close>.\<close>

fun facebook_uuids :: "json list \<Rightarrow> error + json set" where
  "facebook_uuids [] = Inr {}"
| "facebook_uuids (comment # comments) =
     (case author_id comment of
        Inl e \<Rightarrow> Inl e
      | Inr i \<Rightarrow>
          (case py_key i of
             Inl e \<Rightarrow> Inl e
           | Inr k \<Rightarrow>
               (case facebook_uuids comments of
                  Inl e \<Rightarrow> Inl e
                | Inr ks \<Rightarrow> Inr (insert k ks))))"

text \<open>\<open>lut[key]\<close> on a dictionary whose keys are hashed values.\<close>

definition lut_getitem :: "(json \<times> json) list \<Rightarrow> json \<Rightarrow> error + json" where
  "lut_getitem lut key =
     (case py_key key of
        Inl e \<Rightarrow> Inl e
      | Inr k \<Rightarrow> (case map_of lut k of None \<Rightarrow> Inl (KeyError key) | Some v \<Rightarrow> Inr v))"

text \<open>\<open>comment.items()\<close>.\<close>

fun py_items :: "json \<Rightarrow> error + (string \<times> json) list" where
  "py_items (JObj kvs) = Inr (AList.clearjunk kvs)"
| "py_items _ = Inl AttributeError"

text \<open>
  \<open>comment_dict\<close>: the dictionary literal with \<open>avf_facebook_id\<close>, then one store
  for every item of the comment.
\<close>

definition comment_dict :: "string \<Rightarrow> json \<Rightarrow> (string \<times> json) list \<Rightarrow> (string \<times> json) list" where
  "comment_dict dataset_name uuid items =
     fold (\<lambda>(k, v). AList.update (dataset_name @ ''.'' @ k) v) items
       [(''avf_facebook_id'', uuid)]"

text \<open>
  The body of the \<open>for comment in raw_comments\<close> loop of
  \<open>convert_facebook_comments_to_traced_data\<close>, for the \<open>n\<close>-th comment (from 0): the
  traced record or the exception, and the comment as the body leaves it. The comment is
  overwritten before it is validated. \<open>validate_utc_iso_string\<close> gets the string just
  stored.
\<close>

definition convert_comment ::
  "'dt library \<Rightarrow> string \<Rightarrow> string \<Rightarrow> (json \<times> json) list \<Rightarrow> nat \<Rightarrow> json
     \<Rightarrow> (error + traced_data) \<times> json"
where
  "convert_comment lib usr dataset_name lut n comment =
     (case py_getitem comment ''created_time'' of
        Inl e \<Rightarrow> (Inl e, comment)
      | Inr created_time \<Rightarrow>
          (case isoparse lib created_time of
             Inl e \<Rightarrow> (Inl e, comment)
           | Inr d \<Rightarrow>
               (case py_setitem comment ''created_time'' (JStr (isoformat lib d)) of
                  Inl e \<Rightarrow> (Inl e, comment)
                | Inr comment' \<Rightarrow>
                    (case validate_utc_iso_string lib (isoformat lib d) of
                       Inl e \<Rightarrow> (Inl e, comment')
                     | Inr _ \<Rightarrow>
                         (case author_id comment' of
                            Inl e \<Rightarrow> (Inl e, comment')
                          | Inr i \<Rightarrow>
                              (case lut_getitem lut i of
                                 Inl e \<Rightarrow> (Inl e, comment')
                               | Inr uuid \<Rightarrow>
                                   (case py_items comment' of
                                      Inl e \<Rightarrow> (Inl e, comment')
                                    | Inr items \<Rightarrow>
                                        (Inr (TracedData (comment_dict dataset_name uuid items)
                                                (Metadata usr (get_call_location lib)
                                                   (utc_now_as_iso_string lib n))),
                                         comment'))))))))"

text \<open>
  The loop from the \<open>n\<close>-th comment on: \<open>traced_comments\<close> or the first exception,
  and the comments as the loop leaves them.
\<close>

fun convert_comments ::
  "'dt library \<Rightarrow> string \<Rightarrow> string \<Rightarrow> (json \<times> json) list \<Rightarrow> nat \<Rightarrow> json list
     \<Rightarrow> (error + traced_data list) \<times> json list"
where
  "convert_comments lib usr dataset_name lut n [] = (Inr [], [])"
| "convert_comments lib usr dataset_name lut n (comment # comments) =
     (case convert_comment lib usr dataset_name lut n comment of
        (Inl e, comment') \<Rightarrow> (Inl e, comment' # comments)
      | (Inr traced, comment') \<Rightarrow>
          (case convert_comments lib usr dataset_name lut (Suc n) comments of
             (Inl e, comments') \<Rightarrow> (Inl e, comment' # comments')
           | (Inr traced_comments, comments') \<Rightarrow>
               (Inr (traced # traced_comments), comment' # comments')))"

text \<open>
  \<open>convert_facebook_comments_to_traced_data\<close>. The argument \<open>facebook_uuid_table\<close> is
  given by its method \<open>data_to_uuid_batch\<close>, which returns a dictionary or raises. The
  result is the return value or the exception, \<open>raw_comments\<close> as the call leaves the
  list, and the log. The dictionaries of \<open>raw_comments\<close> are distinct objects, as
  in a list returned by the client.
\<close>

definition convert_facebook_comments_to_traced_data ::
  "'dt library \<Rightarrow> log_record list \<Rightarrow> string \<Rightarrow> string \<Rightarrow> json list
     \<Rightarrow> (json set \<Rightarrow> error + (json \<times> json) list)
     \<Rightarrow> (error + traced_data list) \<times> json list \<times> log_record list"
where
  "convert_facebook_comments_to_traced_data lib lg usr dataset_name raw_comments
       data_to_uuid_batch =
     (let lg = lg @ [(INFO, [Txt ''Converting '', Num (length raw_comments),
                             Txt '' Facebook comments to TracedData...''])]
      in case facebook_uuids raw_comments of
           Inl e \<Rightarrow> (Inl e, raw_comments, lg)
         | Inr ids \<Rightarrow>
             (case data_to_uuid_batch ids of
                Inl e \<Rightarrow> (Inl e, raw_comments, lg)
              | Inr facebook_to_uuid_lut \<Rightarrow>
                  (case convert_comments lib usr dataset_name facebook_to_uuid_lut 0 raw_comments of
                     (Inl e, raw_comments') \<Rightarrow> (Inl e, raw_comments', lg)
                   | (Inr traced_comments, raw_comments') \<Rightarrow>
                       (Inr traced_comments, raw_comments',
                        lg @ [(INFO, [Txt ''Converted '', Num (length traced_comments),
                                      Txt '' Facebook comments to TracedData''])]))))"

section \<open>A reference library\<close>

text \<open>
  A concrete library for the examples, after the documentation of \<open>datetime\<close>,
  \<open>pytz\<close>, \<open>dateutil\<close> and \<open>core_data_modules\<close>. It covers datetimes with whole
  seconds and a UTC offset of whole minutes (or none), written
  \<open>YYYY-MM-DDTHH:MM:SS\<close> followed by nothing, \<open>Z\<close>, \<open>+HH:MM\<close>, \<open>+HHMM\<close> or \<open>+HH\<close>
  (or the same with \<open>-\<close>); every other string counts as malformed. The theorems below
  hold for any library; only the examples use this one.
\<close>

datatype datetime = Datetime
  (dt_year: nat) (dt_month: nat) (dt_day: nat)
  (dt_hour: nat) (dt_minute: nat) (dt_second: nat)
  (dt_utcoffset: "int option")

definition digit :: "nat \<Rightarrow> char" where
  "digit n = ''0123456789'' ! (n mod 10)"

definition pad2 :: "nat \<Rightarrow> string" where
  "pad2 n = [digit (n div 10), digit n]"

definition pad4 :: "nat \<Rightarrow> string" where
  "pad4 n = [digit (n div 1000), digit (n div 100), digit (n div 10), digit n]"

text \<open>The offset as \<open>isoformat\<close> prints it, from the offset in minutes east of UTC.\<close>

definition offset_str :: "int \<Rightarrow> string" where
  "offset_str off =
     (if off < 0 then ''-'' else ''+'')
     @ pad2 (nat \<bar>off\<bar> div 60) @ '':'' @ pad2 (nat \<bar>off\<bar> mod 60)"

text \<open>\<open>datetime.isoformat()\<close>.\<close>

definition datetime_isoformat :: "datetime \<Rightarrow> string" where
  "datetime_isoformat d =
     pad4 (dt_year d) @ ''-'' @ pad2 (dt_month d) @ ''-'' @ pad2 (dt_day d) @ ''T''
     @ pad2 (dt_hour d) @ '':'' @ pad2 (dt_minute d) @ '':'' @ pad2 (dt_second d)
     @ (case dt_utcoffset d of None \<Rightarrow> [] | Some off \<Rightarrow> offset_str off)"

text \<open>The proleptic Gregorian calendar: days since 1970-01-01 and back.\<close>

definition days_from_civil :: "int \<Rightarrow> int \<Rightarrow> int \<Rightarrow> int" where
  "days_from_civil y m d =
     (let y' = (if m \<le> 2 then y - 1 else y);
          era = y' div 400;
          yoe = y' - era * 400;
          doy = (153 * (if m > 2 then m - 3 else m + 9) + 2) div 5 + d - 1;
          doe = yoe * 365 + yoe div 4 - yoe div 100 + doy
      in era * 146097 + doe - 719468)"

definition civil_from_days :: "int \<Rightarrow> int \<times> int \<times> int" where
  "civil_from_days z =
     (let z' = z + 719468;
          era = z' div 146097;
          doe = z' - era * 146097;
          yoe = (doe - doe div 1460 + doe div 36524 - doe div 146096) div 365;
          doy = doe - (365 * yoe + yoe div 4 - yoe div 100);
          mp = (5 * doy + 2) div 153;
          d = doy - (153 * mp + 2) div 5 + 1;
          m = (if mp < 10 then mp + 3 else mp - 9)
      in (yoe + era * 400 + (if m \<le> 2 then 1 else 0), m, d))"

definition days_in_month :: "nat \<Rightarrow> nat \<Rightarrow> nat" where
  "days_in_month y m =
     (if m = 2 then (if y mod 4 = 0 \<and> (y mod 100 \<noteq> 0 \<or> y mod 400 = 0) then 29 else 28)
      else if m \<in> {4, 6, 9, 11} then 30 else 31)"

text \<open>
  \<open>d.astimezone(pytz.utc)\<close>: the same instant with offset 0. A datetime without offset
  is taken as local time, whose offset \<open>local_offset\<close> is the system's. A result outside
  the years 1 to 9999 raises \<open>OverflowError\<close>.
\<close>

definition datetime_astimezone_utc :: "int \<Rightarrow> datetime \<Rightarrow> error + datetime" where
  "datetime_astimezone_utc local_offset d =
     (let off = (case dt_utcoffset d of None \<Rightarrow> local_offset | Some off \<Rightarrow> off);
          minutes = days_from_civil (int (dt_year d)) (int (dt_month d)) (int (dt_day d)) * 1440
                    + int (dt_hour d) * 60 + int (dt_minute d) - off;
          (y, m, day) = civil_from_days (minutes div 1440)
      in if y < 1 \<or> 9999 < y then Inl OverflowError
         else Inr (Datetime (nat y) (nat m) (nat day)
                     (nat (minutes mod 1440 div 60)) (nat (minutes mod 60)) (dt_second d)
                     (Some 0)))"

text \<open>Reading decimal numbers.\<close>

definition digit_val :: "char \<Rightarrow> nat option" where
  "digit_val c = map_of (zip ''0123456789'' [0, 1, 2, 3, 4, 5, 6, 7, 8, 9]) c"

fun number_from :: "nat \<Rightarrow> string \<Rightarrow> nat option" where
  "number_from acc [] = Some acc"
| "number_from acc (c # cs) =
     (case digit_val c of None \<Rightarrow> None | Some d \<Rightarrow> number_from (10 * acc + d) cs)"

definition number :: "string \<Rightarrow> nat option" where
  "number s = (if s = [] then None else number_from 0 s)"

text \<open>The offset after the seconds: \<open>None\<close> is malformed, \<open>Some None\<close> is no offset.\<close>

definition offset_minutes :: "char \<Rightarrow> string \<Rightarrow> string \<Rightarrow> int option option" where
  "offset_minutes sign hh mm =
     (case (number hh, number mm) of
        (Some h, Some m) \<Rightarrow>
          if h \<le> 23 \<and> m \<le> 59
          then Some (Some ((if sign = CHR ''-'' then - 1 else 1) * int (h * 60 + m)))
          else None
      | _ \<Rightarrow> None)"

definition parse_offset :: "string \<Rightarrow> int option option" where
  "parse_offset s =
     (if s = [] then Some None
      else if s = ''Z'' then Some (Some 0)
      else if hd s \<notin> {CHR ''+'', CHR ''-''} then None
      else if length s = 6 \<and> s ! 3 = CHR '':'' then
        offset_minutes (hd s) (take 2 (drop 1 s)) (drop 4 s)
      else if length s = 5 then offset_minutes (hd s) (take 2 (drop 1 s)) (drop 3 s)
      else if length s = 3 then offset_minutes (hd s) (drop 1 s) ''00''
      else None)"

text \<open>\<open>dateutil.parser.isoparse\<close>, which takes a string.\<close>

definition dateutil_isoparse :: "json \<Rightarrow> error + datetime" where
  "dateutil_isoparse x =
     (case x of
        JStr s \<Rightarrow>
          if length s < 19 \<or> s ! 4 \<noteq> CHR ''-'' \<or> s ! 7 \<noteq> CHR ''-'' \<or> s ! 10 \<noteq> CHR ''T''
             \<or> s ! 13 \<noteq> CHR '':'' \<or> s ! 16 \<noteq> CHR '':''
          then Inl ValueError
          else
            (case (number (take 4 s), number (take 2 (drop 5 s)), number (take 2 (drop 8 s)),
                   number (take 2 (drop 11 s)), number (take 2 (drop 14 s)),
                   number (take 2 (drop 17 s)), parse_offset (drop 19 s)) of
               (Some y, Some m, Some d, Some h, Some mi, Some sec, Some off) \<Rightarrow>
                 if 1 \<le> y \<and> 1 \<le> m \<and> m \<le> 12 \<and> 1 \<le> d \<and> d \<le> days_in_month y m
                    \<and> h \<le> 23 \<and> mi \<le> 59 \<and> sec \<le> 59
                 then Inr (Datetime y m d h mi sec off)
                 else Inl ValueError
             | _ \<Rightarrow> Inl ValueError)
      | _ \<Rightarrow> Inl TypeError)"

text \<open>
  \<open>validators.validate_utc_iso_string\<close> on the strings \<open>isoformat\<close> returns, the only
  ones the code passes to it: such a string is accepted when its offset is \<open>+00:00\<close>, and
  fails an assertion otherwise.
\<close>

definition validators_validate_utc_iso_string :: "string \<Rightarrow> error + unit" where
  "validators_validate_utc_iso_string s =
     (case dateutil_isoparse (JStr s) of
        Inl e \<Rightarrow> Inl e
      | Inr d \<Rightarrow> if dt_utcoffset d = Some 0 then Inr () else Inl AssertionError)"

definition reference_library :: "int \<Rightarrow> string \<Rightarrow> (nat \<Rightarrow> string) \<Rightarrow> datetime library" where
  "reference_library local_offset call_location clock =
     Library (datetime_astimezone_utc local_offset) datetime_isoformat dateutil_isoparse
       validators_validate_utc_iso_string call_location clock"

section \<open>Notions the properties are stated with\<close>

text \<open>Reading a value as a list or as a dictionary, and a field of a dictionary.\<close>

fun the_list :: "json \<Rightarrow> json list option" where
  "the_list (JList xs) = Some xs"
| "the_list _ = None"

fun the_dict :: "json \<Rightarrow> (string \<times> json) list option" where
  "the_dict (JObj kvs) = Some kvs"
| "the_dict _ = None"

definition field :: "string \<Rightarrow> json \<Rightarrow> json option" where
  "field key x = (case the_dict x of None \<Rightarrow> None | Some kvs \<Rightarrow> map_of kvs key)"

subsection \<open>Pages and cursor chains\<close>

text \<open>
  The records of a page are the list in its \<open>data\<close> field. Its cursor is the \<open>next\<close>
  field of its \<open>paging\<close> dictionary, and \<open>None\<close> when there is none.
\<close>

definition page_records :: "json \<Rightarrow> json list" where
  "page_records page =
     (case Option.bind (field ''data'' page) the_list of None \<Rightarrow> [] | Some xs \<Rightarrow> xs)"

definition has_records :: "json \<Rightarrow> bool" where
  "has_records page = (Option.bind (field ''data'' page) the_list \<noteq> None)"

definition has_paging :: "json \<Rightarrow> bool" where
  "has_paging page = (Option.bind (field ''paging'' page) the_dict \<noteq> None)"

definition lacks_paging :: "json \<Rightarrow> bool" where
  "lacks_paging page = (the_dict page \<noteq> None \<and> field ''paging'' page = None)"

definition next_cursor :: "json \<Rightarrow> json" where
  "next_cursor page =
     (case Option.bind (field ''paging'' page) (field ''next'') of None \<Rightarrow> JNull | Some u \<Rightarrow> u)"

text \<open>
  \<open>chain_from http_get cursor pages\<close>: following the cursors from \<open>cursor\<close>, the network
  serves exactly \<open>pages\<close>, in this order, and the last of them has no cursor.
\<close>

fun chain_from :: "network \<Rightarrow> json \<Rightarrow> json list \<Rightarrow> bool" where
  "chain_from http_get cursor [] = (cursor = JNull)"
| "chain_from http_get cursor (page # pages) =
     (cursor \<noteq> JNull \<and> http_get cursor [] = Inr page
      \<and> chain_from http_get (next_cursor page) pages)"

text \<open>
  The cursor chain of a paged request: the page the first request gets, with the
  access token added to its parameters, and the pages its cursors lead to.
\<close>

fun cursor_chain :: "network \<Rightarrow> string \<Rightarrow> string \<Rightarrow> params \<Rightarrow> json list \<Rightarrow> bool" where
  "cursor_chain http_get access_token endpoint params [] = False"
| "cursor_chain http_get access_token endpoint params (page # pages) =
     (http_get (JStr (BASE_URL @ endpoint))
        (AList.update ''access_token'' (JStr access_token) params) = Inr page
      \<and> chain_from http_get (next_cursor page) pages)"

text \<open>
  Pages as the API sends them: every page has a list of records, and a \<open>paging\<close>
  dictionary, which only the first page may lack.
\<close>

fun well_formed_pages :: "json list \<Rightarrow> bool" where
  "well_formed_pages [] = False"
| "well_formed_pages (page # pages) =
     (has_records page \<and> (has_paging page \<or> lacks_paging page)
      \<and> list_all (\<lambda>q. has_records q \<and> has_paging q) pages)"

subsection \<open>Three mock pages\<close>

definition mock_page :: "json list \<Rightarrow> json \<Rightarrow> json" where
  "mock_page records cursor =
     JObj [(''data'', JList records),
           (''paging'', JObj ((''cursors'', JObj [(''before'', JStr ''b''), (''after'', JStr ''a'')])
                              # (case cursor of JNull \<Rightarrow> [] | u \<Rightarrow> [(''next'', u)])))]"

definition comment_1 :: json where
  "comment_1 = JObj [(''id'', JStr ''10_1''), (''message'', JStr ''first'')]"

definition comment_2 :: json where
  "comment_2 = JObj [(''id'', JStr ''10_2''), (''message'', JStr ''second'')]"

definition comment_3 :: json where
  "comment_3 = JObj [(''id'', JStr ''10_3''), (''message'', JStr ''third'')]"

definition comment_4 :: json where
  "comment_4 = JObj [(''id'', JStr ''10_4''), (''message'', JStr ''fourth'')]"

definition comment_5 :: json where
  "comment_5 = JObj [(''id'', JStr ''10_5''), (''message'', JStr ''fifth'')]"

definition mock_pages :: "json list" where
  "mock_pages =
     [mock_page [comment_1, comment_2] (JStr ''https://graph.facebook.com/v8.0/next/2''),
      mock_page [comment_3] (JStr ''https://graph.facebook.com/v8.0/next/3''),
      mock_page [comment_4, comment_5] JNull]"

text \<open>
  A mock network: the first page at any endpoint of the API under the base URL with the
  access token \<open>token\<close>, the other two at the cursors.
\<close>

definition mock_network :: network where
  "mock_network url params =
     (if url = JStr ''https://graph.facebook.com/v8.0/next/2'' then Inr (mock_pages ! 1)
      else if url = JStr ''https://graph.facebook.com/v8.0/next/3'' then Inr (mock_pages ! 2)
      else if map_of params ''access_token'' = Some (JStr ''token'') then Inr (mock_pages ! 0)
      else Inl (OtherError ''401''))"

subsection \<open>Posts and attachments\<close>

text \<open>
  The attachment list of a post is the list in the \<open>data\<close> field of its \<open>attachments\<close>
  field. An attachment is of photo kind when its type is \<open>photo\<close>, and of video kind when
  its type is \<open>video_inline\<close> or \<open>video_direct_response\<close>. \<open>has_type\<close>: the attachment
  has a \<open>type\<close> field with a value that can be looked up in a set.
\<close>

definition post_attachments :: "json \<Rightarrow> json list option" where
  "post_attachments post =
     Option.bind (field ''attachments'' post) (\<lambda>a. Option.bind (field ''data'' a) the_list)"

definition is_photo :: "json \<Rightarrow> bool" where
  "is_photo attachment = (field ''type'' attachment = Some (JStr ''photo''))"

definition is_video :: "json \<Rightarrow> bool" where
  "is_video attachment =
     (field ''type'' attachment
        \<in> {Some (JStr ''video_inline''), Some (JStr ''video_direct_response'')})"

definition has_type :: "json \<Rightarrow> bool" where
  "has_type attachment =
     (case field ''type'' attachment of
        None \<Rightarrow> False
      | Some t \<Rightarrow> (case py_key t of Inl e \<Rightarrow> False | Inr k \<Rightarrow> True))"

definition attachment :: "string \<Rightarrow> json" where
  "attachment t = JObj [(''type'', JStr t), (''url'', JStr ''https://example.org/media'')]"

definition post_with :: "json list \<Rightarrow> json" where
  "post_with attachments =
     JObj [(''id'', JStr ''10''), (''attachments'', JObj [(''data'', JList attachments)])]"

subsection \<open>Metrics\<close>

text \<open>
  The values of a metric are the list in its \<open>values\<close> field. A metric as the API sends
  it has a string as its name, and a \<open>value\<close> field in each of its values. The entry of a
  metric with a single value is its name with that value.
\<close>

definition metric_values :: "json \<Rightarrow> json list option" where
  "metric_values m = Option.bind (field ''values'' m) the_list"

definition well_formed_metric :: "json \<Rightarrow> bool" where
  "well_formed_metric m =
     ((case field ''name'' m of Some (JStr name) \<Rightarrow> True | _ \<Rightarrow> False)
      \<and> (case metric_values m of
            None \<Rightarrow> False
          | Some vs \<Rightarrow> list_all (\<lambda>v. field ''value'' v \<noteq> None) vs))"

definition single_valued :: "json \<Rightarrow> bool" where
  "single_valued m = (map_option length (metric_values m) = Some 1)"

definition metric_entry :: "json \<Rightarrow> (json \<times> json) option" where
  "metric_entry m =
     (case (field ''name'' m, metric_values m) of
        (Some name, Some [v]) \<Rightarrow> map_option (Pair name) (field ''value'' v)
      | _ \<Rightarrow> None)"

definition metric :: "string \<Rightarrow> json list \<Rightarrow> json" where
  "metric name vs =
     JObj [(''name'', JStr name), (''period'', JStr ''lifetime''),
           (''values'', JList (map (\<lambda>v. JObj [(''value'', v)]) vs))]"

definition metrics_body :: "json list \<Rightarrow> json" where
  "metrics_body ms = JObj [(''data'', JList ms)]"

subsection \<open>Facebook time\<close>

text \<open>
  An ISO 8601 string of a datetime in UTC, as \<open>isoformat\<close> writes it: it ends with the
  offset \<open>+00:00\<close>, and has no other \<open>+\<close>. Its form with a \<open>Z\<close> suffix has \<open>Z\<close> in place
  of that offset.
\<close>

definition ends_with :: "string \<Rightarrow> string \<Rightarrow> bool" where
  "ends_with suffix s =
     (length suffix \<le> length s \<and> drop (length s - length suffix) s = suffix)"

definition utc_iso_string :: "string \<Rightarrow> bool" where
  "utc_iso_string s =
     (ends_with ''+00:00'' s \<and> CHR ''+'' \<notin> set (take (length s - 6) s))"

definition with_z_suffix :: "string \<Rightarrow> string" where
  "with_z_suffix s =
     (if ends_with ''+00:00'' s then take (length s - 6) s @ ''Z'' else s)"

text \<open>
  \<open>converts lib date\<close>: the library converts \<open>date\<close> to UTC without raising, and writes
  the result as an ISO 8601 string of a datetime in UTC. \<open>facebook_time lib date\<close> is then
  that string with a \<open>Z\<close> suffix.
\<close>

definition converts :: "'dt library \<Rightarrow> 'dt \<Rightarrow> bool" where
  "converts lib date =
     (case astimezone_utc lib date of
        Inl e \<Rightarrow> False
      | Inr utc \<Rightarrow> utc_iso_string (isoformat lib utc))"

definition facebook_time :: "'dt library \<Rightarrow> 'dt \<Rightarrow> string" where
  "facebook_time lib date =
     (case astimezone_utc lib date of
        Inl e \<Rightarrow> []
      | Inr utc \<Rightarrow> with_z_suffix (isoformat lib utc))"

subsection \<open>Comments\<close>

text \<open>
  The timestamp of a comment as the library writes it again after parsing it, and the
  comment with that string as its \<open>created_time\<close>. A comment has a valid timestamp when
  the string passes the validation for UTC.
\<close>

definition reserialised :: "'dt library \<Rightarrow> json \<Rightarrow> string option" where
  "reserialised lib comment =
     (case field ''created_time'' comment of
        None \<Rightarrow> None
      | Some t \<Rightarrow> (case isoparse lib t of Inl e \<Rightarrow> None | Inr d \<Rightarrow> Some (isoformat lib d)))"

definition overwritten :: "'dt library \<Rightarrow> json \<Rightarrow> json" where
  "overwritten lib comment =
     (case (the_dict comment, reserialised lib comment) of
        (Some kvs, Some s) \<Rightarrow> JObj (AList.update ''created_time'' (JStr s) kvs)
      | _ \<Rightarrow> comment)"

definition valid_timestamp :: "'dt library \<Rightarrow> json \<Rightarrow> bool" where
  "valid_timestamp lib comment =
     (case reserialised lib comment of
        None \<Rightarrow> False
      | Some s \<Rightarrow> validate_utc_iso_string lib s = Inr ())"

text \<open>
  The author id of a comment, as the key it is in a set or dictionary, and the
  pseudonymous identifier a lookup table result maps it to.
\<close>

definition author_key :: "json \<Rightarrow> json option" where
  "author_key comment =
     (case Option.bind (field ''from'' comment) (field ''id'') of
        None \<Rightarrow> None
      | Some i \<Rightarrow> (case py_key i of Inl e \<Rightarrow> None | Inr k \<Rightarrow> Some k))"

definition pseudonym :: "(json \<times> json) list \<Rightarrow> json \<Rightarrow> json option" where
  "pseudonym lut comment = Option.bind (author_key comment) (map_of lut)"

text \<open>
  The traced record of the \<open>n\<close>-th comment, from the comment as the loop body leaves
  it and the pseudonymous identifier of its author.
\<close>

definition traced_of ::
  "'dt library \<Rightarrow> string \<Rightarrow> string \<Rightarrow> json \<Rightarrow> nat \<Rightarrow> json \<Rightarrow> traced_data"
where
  "traced_of lib usr dataset_name uuid n c' =
     TracedData
       (comment_dict dataset_name uuid (case the_dict c' of None \<Rightarrow> [] | Some kvs \<Rightarrow> AList.clearjunk kvs))
       (Metadata usr (get_call_location lib) (utc_now_as_iso_string lib n))"

text \<open>Comments as the API sends them, and a lookup table that knows two authors.\<close>

definition raw_comment :: "string \<Rightarrow> string \<Rightarrow> string \<Rightarrow> json" where
  "raw_comment comment_id author created_time =
     JObj [(''id'', JStr comment_id),
           (''from'', JObj [(''name'', JStr ''A. Commenter''), (''id'', JStr author)]),
           (''created_time'', JStr created_time),
           (''message'', JStr ''hello'')]"

definition uuid_table :: "json set \<Rightarrow> error + (json \<times> json) list" where
  "uuid_table ids =
     (let known = [(JStr ''1001'', JStr ''avf-facebook-uuid-aaaa''),
                   (JStr ''1002'', JStr ''avf-facebook-uuid-bbbb'')]
      in if ids \<subseteq> set (map fst known) then Inr (filter (\<lambda>(k, v). k \<in> ids) known)
         else Inl (OtherError ''LookupError''))"

subsection \<open>More mock responses\<close>

text \<open>A page with records and no \<open>paging\<close> field at all.\<close>

definition bare_page :: "json list \<Rightarrow> json" where
  "bare_page records = JObj [(''data'', JList records)]"

text \<open>The body the API sends instead of data when it refuses a request.\<close>

definition error_body :: json where
  "error_body =
     JObj [(''error'', JObj [(''message'', JStr ''Invalid OAuth access token.''),
                             (''type'', JStr ''OAuthException''), (''code'', JInt 190)])]"

text \<open>A network that serves \<open>later\<close> at the cursors it lists, and \<open>first\<close> everywhere else.\<close>

definition serving :: "json \<Rightarrow> (json \<times> json) list \<Rightarrow> network" where
  "serving first later url params =
     (case map_of later url of Some page \<Rightarrow> Inr page | None \<Rightarrow> Inr first)"

text \<open>Two comments with the timestamps the API sends, one with an offset of three hours,
  and one of an author the lookup table does not know.\<close>

definition utc_comments :: "json list" where
  "utc_comments =
     [raw_comment ''10_1'' ''1001'' ''2020-09-07T12:34:56+0000'',
      raw_comment ''10_2'' ''1002'' ''2020-09-08T08:00:00+0000'']"

definition offset_comment :: json where
  "offset_comment = raw_comment ''10_3'' ''1001'' ''2020-09-07T12:34:56+0300''"

definition stranger_comment :: json where
  "stranger_comment = raw_comment ''10_4'' ''9999'' ''2020-09-07T12:34:56+0000''"

definition pipeline_library :: "datetime library" where
  "pipeline_library =
     reference_library 0 ''facebook_utils.py:54:convert_facebook_comments_to_traced_data''
       (\<lambda>n. ''2020-10-01T00:00:00+00:00'')"

text \<open>
  Three pages of which the last is empty and has, as empty pages of the API do, no
  \<open>paging\<close> field; and the network that serves them.
\<close>

definition pages_ending_empty :: "json list" where
  "pages_ending_empty =
     [mock_page [comment_1, comment_2] (JStr ''https://graph.facebook.com/v8.0/next/2''),
      mock_page [comment_3] (JStr ''https://graph.facebook.com/v8.0/next/3''),
      bare_page []]"

definition network_ending_empty :: network where
  "network_ending_empty =
     serving (pages_ending_empty ! 0)
       [(JStr ''https://graph.facebook.com/v8.0/next/2'', pages_ending_empty ! 1),
        (JStr ''https://graph.facebook.com/v8.0/next/3'', pages_ending_empty ! 2)]"

text \<open>A post as \<open>get_post\<close> returns it for its default fields: it has no \<open>attachments\<close>.\<close>

definition text_post :: json where
  "text_post =
     JObj [(''created_time'', JStr ''2020-09-07T12:34:56+0000''),
           (''message'', JStr ''no picture today''), (''id'', JStr ''10'')]"

text \<open>A network that answers every request with one page, whose only record is the request.\<close>

definition echo_network :: network where
  "echo_network url params = Inr (JObj [(''data'', JList [JObj ((''url'', url) # params)])])"

section \<open>Properties\<close>

subsection \<open>Reading fields\<close>

lemma map_of_Some_in_keys: "map_of kvs k = Some v \<Longrightarrow> k \<in> fst ` set kvs"
  by (metis map_of_eq_None_iff option.distinct(1))

lemma the_list_Some: "the_list x = Some xs \<longleftrightarrow> x = JList xs"
  by (cases x) auto

lemma the_dict_Some: "the_dict x = Some kvs \<longleftrightarrow> x = JObj kvs"
  by (cases x) auto

lemma field_Some: "field key x = Some v \<longleftrightarrow> (\<exists>kvs. x = JObj kvs \<and> map_of kvs key = Some v)"
  by (auto simp: field_def the_dict_Some split: option.splits)

lemma field_getitem: "field key x = Some v \<Longrightarrow> py_getitem x key = Inr v"
  by (auto simp: field_Some)

subsection \<open>Paged requests\<close>

lemma has_recordsE:
  assumes "has_records page"
  obtains kvs xs where "page = JObj kvs" "map_of kvs ''data'' = Some (JList xs)"
  using assms
  by (auto simp: has_records_def field_Some the_list_Some bind_eq_Some_conv)

lemma has_pagingE:
  assumes "has_paging page"
  obtains kvs pg where "page = JObj kvs" "map_of kvs ''paging'' = Some (JObj pg)"
  using assms
  by (auto simp: has_paging_def field_Some the_dict_Some bind_eq_Some_conv)

lemma lacks_pagingE:
  assumes "lacks_paging page"
  obtains kvs where "page = JObj kvs" "map_of kvs ''paging'' = None"
  using assms
  by (auto simp: lacks_paging_def field_def the_dict_Some split: option.splits)

lemma has_records_contains:
  "has_records page \<Longrightarrow> py_contains ''data'' page = Inr True"
  by (erule has_recordsE) (simp add: map_of_Some_in_keys)

lemma has_records_getitem:
  "has_records page \<Longrightarrow> py_getitem page ''data'' = Inr (JList (page_records page))"
  by (erule has_recordsE) (simp add: page_records_def field_def)

lemma has_paging_get:
  "has_paging page \<Longrightarrow> \<exists>pg. py_getitem page ''paging'' = Inr (JObj pg) \<and>
     py_get page ''paging'' (JObj []) = Inr (JObj pg) \<and>
     py_get (JObj pg) ''next'' JNull = Inr (next_cursor page)"
  by (erule has_pagingE) (simp add: next_cursor_def field_def split: option.splits)

lemma lacks_paging_get:
  "lacks_paging page \<Longrightarrow> py_get page ''paging'' (JObj []) = Inr (JObj []) \<and>
     py_getitem page ''paging'' = Inl (KeyError (JStr ''paging'')) \<and>
     next_cursor page = JNull"
  by (erule lacks_pagingE) (simp add: next_cursor_def field_def)

text \<open>One turn of the loop on a well-formed page appends its records and moves to its cursor.\<close>

lemma paged_step_page:
  assumes "has_records page" "has_paging page"
  shows "paged_step (JList acc) page = Inr (JList (acc @ page_records page), next_cursor page)"
proof -
  from has_paging_get [OF assms(2)] obtain pg where
    "py_getitem page ''paging'' = Inr (JObj pg)"
    "py_get (JObj pg) ''next'' JNull = Inr (next_cursor page)" by blast
  then show ?thesis
    unfolding paged_step_def by (simp add: has_records_getitem [OF assms(1)])
qed

text \<open>The loop returns, and what it returns, by induction on the chain of pages left.\<close>

lemma paged_loop_chain:
  "chain_from http_get cursor pages \<Longrightarrow> list_all (\<lambda>q. has_records q \<and> has_paging q) pages \<Longrightarrow>
   paged_loop http_get lg (JList acc) cursor =
     Some (Inr (JList (acc @ concat (map page_records pages))), lg)"
proof (induction pages arbitrary: acc cursor)
  case Nil
  then show ?case by (simp add: paged_loop.simps)
next
  case (Cons page pages)
  from Cons.prems have c: "cursor \<noteq> JNull" and g: "http_get cursor [] = Inr page"
    and rest: "chain_from http_get (next_cursor page) pages"
    and ok: "has_records page" "has_paging page"
    and oks: "list_all (\<lambda>q. has_records q \<and> has_paging q) pages"
    by auto
  have "paged_loop http_get lg (JList acc) cursor =
        paged_loop http_get lg (JList (acc @ page_records page)) (next_cursor page)"
    by (subst paged_loop.simps) (simp add: c g has_records_contains ok paged_step_page)
  also have "\<dots> = Some (Inr (JList ((acc @ page_records page) @ concat (map page_records pages))), lg)"
    by (rule Cons.IH [OF rest oks])
  finally show ?case by simp
qed

lemma first_page_loop:
  assumes first: "http_get (JStr (BASE_URL @ endpoint))
                    (AList.update ''access_token'' (JStr access_token) params) = Inr page"
    and p0: "has_records page" "has_paging page \<or> lacks_paging page"
  shows "make_paged_get_request http_get access_token lg endpoint params =
           paged_loop http_get lg (JList (page_records page)) (next_cursor page)"
proof -
  have "\<exists>pg. py_get page ''paging'' (JObj []) = Inr (JObj pg) \<and>
             py_get (JObj pg) ''next'' JNull = Inr (next_cursor page)"
    using p0(2) has_paging_get [of page] lacks_paging_get [of page] by auto
  then obtain pg where pg: "py_get page ''paging'' (JObj []) = Inr (JObj pg)"
    and nx: "py_get (JObj pg) ''next'' JNull = Inr (next_cursor page)" by blast
  show ?thesis
    unfolding make_paged_get_request_def
    by (simp only: first has_records_contains [OF p0(1)] has_records_getitem [OF p0(1)] pg nx
        sum.case simp_thms if_False)
qed

lemma paged_request_concat:
  assumes "cursor_chain http_get access_token endpoint params pages"
    and "well_formed_pages pages"
  shows "make_paged_get_request http_get access_token lg endpoint params =
           Some (Inr (JList (concat (map page_records pages))), lg)"
proof (cases pages)
  case Nil
  with assms show ?thesis by simp
next
  case (Cons page rest)
  with assms have first: "http_get (JStr (BASE_URL @ endpoint))
        (AList.update ''access_token'' (JStr access_token) params) = Inr page"
    and chain: "chain_from http_get (next_cursor page) rest"
    and p0: "has_records page" "has_paging page \<or> lacks_paging page"
    and ps: "list_all (\<lambda>q. has_records q \<and> has_paging q) rest"
    by auto
  have "make_paged_get_request http_get access_token lg endpoint params =
          paged_loop http_get lg (JList (page_records page)) (next_cursor page)"
    using first p0 by (rule first_page_loop)
  also have "\<dots> = Some (Inr (JList (page_records page @ concat (map page_records rest))), lg)"
    by (rule paged_loop_chain [OF chain ps])
  finally show ?thesis by (simp add: Cons)
qed

lemma log_fetched_list:
  "fst (log_fetched what (Inr (JList xs), lg)) = Inr (JList xs)"
  by (simp add: log_fetched_def)

lemma export_comments_list:
  "fst (export_comments file (log_fetched what (Inr (JList xs), lg))) = Inr (JList xs)"
  by (simp add: log_fetched_def export_comments_def split: option.splits)

text \<open>
  Whenever the network serves a chain of well-formed pages for a paged request,
  \<open>_make_paged_get_request\<close> returns, and what it returns is the list of the records of
  all the pages of the chain, in page order; so do \<open>get_posts_published_by_page\<close> and
  \<open>get_all_comments_on_post\<close> for the request they make.
\<close>

theorem paged_request_returns_all_pages:
  "(cursor_chain http_get access_token endpoint params pages \<and> well_formed_pages pages \<longrightarrow>
      make_paged_get_request http_get access_token lg endpoint params =
        Some (Inr (JList (concat (map page_records pages))), lg))
   \<and> (posts_params lib fields created_after created_before = Inr params
      \<and> cursor_chain http_get access_token (''/'' @ page_id @ ''/published_posts'') params pages
      \<and> well_formed_pages pages \<longrightarrow>
      map_option fst (get_posts_published_by_page lib http_get access_token lg page_id fields
                        created_after created_before) =
        Some (Inr (JList (concat (map page_records pages)))))
   \<and> (cursor_chain http_get access_token (''/'' @ post_id @ ''/comments'')
        [(''fields'', JStr (join '','' fields)), (''limit'', JInt MAX_RESULTS_PER_PAGE),
         (''filter'', JStr ''stream'')] pages
      \<and> well_formed_pages pages \<longrightarrow>
      map_option fst (get_all_comments_on_post http_get access_token lg post_id fields
                        raw_export_log_file) =
        Some (Inr (JList (concat (map page_records pages)))))"
proof (intro conjI impI)
  assume "cursor_chain http_get access_token endpoint params pages \<and> well_formed_pages pages"
  then show "make_paged_get_request http_get access_token lg endpoint params =
      Some (Inr (JList (concat (map page_records pages))), lg)"
    by (simp add: paged_request_concat)
next
  assume a: "posts_params lib fields created_after created_before = Inr params
      \<and> cursor_chain http_get access_token (''/'' @ page_id @ ''/published_posts'') params pages
      \<and> well_formed_pages pages"
  then have "make_paged_get_request http_get access_token
               (lg @ [(DEBUG, posts_log_str lib page_id created_after created_before)])
               (''/'' @ page_id @ ''/published_posts'') params =
             Some (Inr (JList (concat (map page_records pages))),
                   lg @ [(DEBUG, posts_log_str lib page_id created_after created_before)])"
    by (intro paged_request_concat) simp_all
  with a show "map_option fst (get_posts_published_by_page lib http_get access_token lg page_id
        fields created_after created_before) = Some (Inr (JList (concat (map page_records pages))))"
    by (simp add: get_posts_published_by_page_def log_fetched_list del: append.simps)
next
  let ?params = "[(''fields'', JStr (join '','' fields)), (''limit'', JInt MAX_RESULTS_PER_PAGE),
                  (''filter'', JStr ''stream'')]"
  let ?lg = "lg @ [(INFO, [Txt ''Fetching all comments on post '', Quoted post_id, Txt ''...''])]"
  assume "cursor_chain http_get access_token (''/'' @ post_id @ ''/comments'') ?params pages
      \<and> well_formed_pages pages"
  then have "make_paged_get_request http_get access_token ?lg
               (''/'' @ post_id @ ''/comments'') ?params =
             Some (Inr (JList (concat (map page_records pages))), ?lg)"
    by (intro paged_request_concat) simp_all
  then show "map_option fst (get_all_comments_on_post http_get access_token lg post_id fields
        raw_export_log_file) = Some (Inr (JList (concat (map page_records pages))))"
    by (simp add: get_all_comments_on_post_def export_comments_list del: append.simps)
qed

theorem paged_request_returns_all_pages_witness:
  "cursor_chain mock_network ''token'' ''/10/comments''
     [(''fields'', JStr (join '','' [''message''])), (''limit'', JInt MAX_RESULTS_PER_PAGE),
      (''filter'', JStr ''stream'')] mock_pages
   \<and> well_formed_pages mock_pages
   \<and> make_paged_get_request mock_network ''token'' [] ''/10/comments''
       [(''fields'', JStr (join '','' [''message''])), (''limit'', JInt MAX_RESULTS_PER_PAGE),
        (''filter'', JStr ''stream'')] =
       Some (Inr (JList [comment_1, comment_2, comment_3, comment_4, comment_5]), [])
   \<and> map_option fst (get_all_comments_on_post mock_network ''token'' [] ''10'' [''message''] None) =
       Some (Inr (JList [comment_1, comment_2, comment_3, comment_4, comment_5]))
   \<and> map_option fst (get_posts_published_by_page (reference_library 0 [] (\<lambda>n. [])) mock_network
         ''token'' [] ''10'' [''message''] None None) =
       Some (Inr (JList [comment_1, comment_2, comment_3, comment_4, comment_5]))"
proof -
  let ?params = "[(''fields'', JStr (join '','' [''message''])),
                  (''limit'', JInt MAX_RESULTS_PER_PAGE), (''filter'', JStr ''stream'')]"
  have chain: "cursor_chain mock_network ''token'' (''/'' @ ''10'' @ ''/comments'') ?params mock_pages"
    by code_simp
  have wf: "well_formed_pages mock_pages"
    by code_simp
  have records: "concat (map page_records mock_pages) =
                   [comment_1, comment_2, comment_3, comment_4, comment_5]"
    by code_simp
  have endpoint: "''/'' @ ''10'' @ ''/comments'' = ''/10/comments''"
    by simp
  have fields: "join '','' [''message''] = ''message''"
    by simp
  let ?lib = "reference_library 0 [] (\<lambda>n. [])"
  let ?posts_params = "[(''fields'', JStr (join '','' [''message''])),
                        (''limit'', JInt MAX_RESULTS_PER_PAGE)]"
  have posts_params: "posts_params ?lib [''message''] None None = Inr ?posts_params"
    by (simp add: posts_params_def)
  have posts_chain:
    "cursor_chain mock_network ''token'' (''/'' @ ''10'' @ ''/published_posts'') ?posts_params
       mock_pages"
    by code_simp
  note comments = paged_request_returns_all_pages
    [of mock_network "''token''" "''/'' @ ''10'' @ ''/comments''" ?params mock_pages "[]"
        _ "[''message'']" _ _ _ "''10''" None]
  note posts = paged_request_returns_all_pages
    [of mock_network "''token''" _ ?posts_params mock_pages _
        ?lib "[''message'']" None None "''10''", THEN conjunct2, THEN conjunct1]
  from comments chain wf have
    "make_paged_get_request mock_network ''token'' [] (''/'' @ ''10'' @ ''/comments'') ?params =
       Some (Inr (JList (concat (map page_records mock_pages))), [])"
    "map_option fst (get_all_comments_on_post mock_network ''token'' [] ''10'' [''message''] None) =
       Some (Inr (JList (concat (map page_records mock_pages))))"
    by blast+
  moreover from posts posts_params posts_chain wf have
    "map_option fst (get_posts_published_by_page ?lib mock_network ''token'' [] ''10''
        [''message''] None None) = Some (Inr (JList (concat (map page_records mock_pages))))"
    by blast
  ultimately show ?thesis
    using chain wf unfolding records endpoint by blast
qed

subsection \<open>Pages without a paging field, bodies without a data field\<close>

lemma paged_step_lacks_paging:
  assumes "has_records page" "lacks_paging page"
  shows "paged_step (JList acc) page = Inl (KeyError (JStr ''paging''))"
  unfolding paged_step_def
  using lacks_paging_get [OF assms(2)] by (simp add: has_records_getitem [OF assms(1)])

lemma paged_loop_lacks_paging:
  assumes "cursor \<noteq> JNull" "http_get cursor [] = Inr page" "has_records page" "lacks_paging page"
  shows "paged_loop http_get lg (JList acc) cursor = Some (Inl (KeyError (JStr ''paging'')), lg)"
  by (subst paged_loop.simps)
     (simp add: assms has_records_contains paged_step_lacks_paging)

text \<open>
  C1. The network serves a chain of three pages, each with a list of records, and the last
  one, which is empty, without a \<open>paging\<close> field. \<open>_make_paged_get_request\<close> and
  \<open>get_all_comments_on_post\<close> do not return the records of the pages of the chain:
  they raise \<open>KeyError\<close> for the key \<open>paging\<close>.
\<close>

theorem last_page_without_paging_loses_records:
  "cursor_chain network_ending_empty ''token'' ''/10/comments''
     [(''fields'', JStr ''message''), (''limit'', JInt MAX_RESULTS_PER_PAGE),
      (''filter'', JStr ''stream'')] pages_ending_empty
   \<and> list_all has_records pages_ending_empty
   \<and> concat (map page_records pages_ending_empty) = [comment_1, comment_2, comment_3]
   \<and> make_paged_get_request network_ending_empty ''token'' [] ''/10/comments''
       [(''fields'', JStr ''message''), (''limit'', JInt MAX_RESULTS_PER_PAGE),
        (''filter'', JStr ''stream'')] =
       Some (Inl (KeyError (JStr ''paging'')), [])
   \<and> map_option fst
       (get_all_comments_on_post network_ending_empty ''token'' [] ''10'' [''message''] None) =
       Some (Inl (KeyError (JStr ''paging'')))"
proof -
  let ?params = "[(''fields'', JStr ''message''), (''limit'', JInt MAX_RESULTS_PER_PAGE),
                  (''filter'', JStr ''stream'')]"
  let ?p1 = "mock_page [comment_1, comment_2] (JStr ''https://graph.facebook.com/v8.0/next/2'')"
  let ?p2 = "mock_page [comment_3] (JStr ''https://graph.facebook.com/v8.0/next/3'')"
  have chain: "cursor_chain network_ending_empty ''token'' ''/10/comments'' ?params
      pages_ending_empty"
    "list_all has_records pages_ending_empty"
    "concat (map page_records pages_ending_empty) = [comment_1, comment_2, comment_3]"
    by code_simp+
  have first: "network_ending_empty (JStr (BASE_URL @ ''/10/comments''))
      (AList.update ''access_token'' (JStr ''token'') ?params) = Inr ?p1"
    "has_records ?p1" "has_paging ?p1"
    "next_cursor ?p1 = JStr ''https://graph.facebook.com/v8.0/next/2''"
    by code_simp+
  have second: "network_ending_empty (JStr ''https://graph.facebook.com/v8.0/next/2'') [] = Inr ?p2"
    "has_records ?p2" "has_paging ?p2"
    "next_cursor ?p2 = JStr ''https://graph.facebook.com/v8.0/next/3''"
    by code_simp+
  have third: "network_ending_empty (JStr ''https://graph.facebook.com/v8.0/next/3'') [] =
      Inr (bare_page [])"
    "has_records (bare_page [])" "lacks_paging (bare_page [])"
    by code_simp+
  have loop: "\<And>lg. make_paged_get_request network_ending_empty ''token'' lg ''/10/comments''
      ?params = Some (Inl (KeyError (JStr ''paging'')), lg)"
  proof -
    fix lg
    have "make_paged_get_request network_ending_empty ''token'' lg ''/10/comments'' ?params =
        paged_loop network_ending_empty lg (JList (page_records ?p1)) (next_cursor ?p1)"
      using first(1,2,3) by (intro first_page_loop) simp_all
    also have "\<dots> = paged_loop network_ending_empty lg
        (JList (page_records ?p1 @ page_records ?p2)) (next_cursor ?p2)"
      unfolding first(4)
      by (subst paged_loop.simps)
         (simp add: second(1) has_records_contains [OF second(2)]
            paged_step_page [OF second(2,3)])
    also have "\<dots> = Some (Inl (KeyError (JStr ''paging'')), lg)"
      unfolding second(4)
      by (rule paged_loop_lacks_paging [where page = "bare_page []"]) (simp_all add: third)
    finally show "make_paged_get_request network_ending_empty ''token'' lg ''/10/comments''
      ?params = Some (Inl (KeyError (JStr ''paging'')), lg)" .
  qed
  have "map_option fst
      (get_all_comments_on_post network_ending_empty ''token'' [] ''10'' [''message''] None) =
      Some (Inl (KeyError (JStr ''paging'')))"
    using loop [of "[] @ [(INFO, [Txt ''Fetching all comments on post '', Quoted ''10'',
                                  Txt ''...''])]"]
    by (simp add: get_all_comments_on_post_def log_fetched_def export_comments_def)
  with chain loop [of "[]"] show ?thesis by blast
qed

text \<open>
  C10. A page after the first that has a \<open>data\<close> field and no \<open>paging\<close> field makes
  \<open>_make_paged_get_request\<close> raise \<open>KeyError\<close> for the key \<open>paging\<close>, and the records
  fetched so far are not returned; a first page of the same shape ends the pagination and
  its records are returned.
\<close>

theorem missing_paging_raises_after_first_page:
  "(http_get (JStr (BASE_URL @ endpoint))
      (AList.update ''access_token'' (JStr access_token) params) = Inr page
    \<and> has_records page \<and> lacks_paging page \<longrightarrow>
    make_paged_get_request http_get access_token lg endpoint params =
      Some (Inr (JList (page_records page)), lg))
   \<and> (http_get (JStr (BASE_URL @ endpoint))
        (AList.update ''access_token'' (JStr access_token) params) = Inr page
      \<and> has_records page \<and> has_paging page \<and> next_cursor page \<noteq> JNull
      \<and> http_get (next_cursor page) [] = Inr page'
      \<and> has_records page' \<and> lacks_paging page' \<longrightarrow>
      make_paged_get_request http_get access_token lg endpoint params =
        Some (Inl (KeyError (JStr ''paging'')), lg))"
proof (intro conjI impI)
  assume a: "http_get (JStr (BASE_URL @ endpoint))
      (AList.update ''access_token'' (JStr access_token) params) = Inr page
    \<and> has_records page \<and> lacks_paging page"
  then have "make_paged_get_request http_get access_token lg endpoint params =
      paged_loop http_get lg (JList (page_records page)) (next_cursor page)"
    by (intro first_page_loop) simp_all
  also have "next_cursor page = JNull"
    using a lacks_paging_get by blast
  finally show "make_paged_get_request http_get access_token lg endpoint params =
      Some (Inr (JList (page_records page)), lg)"
    by (simp add: paged_loop.simps)
next
  assume a: "http_get (JStr (BASE_URL @ endpoint))
        (AList.update ''access_token'' (JStr access_token) params) = Inr page
      \<and> has_records page \<and> has_paging page \<and> next_cursor page \<noteq> JNull
      \<and> http_get (next_cursor page) [] = Inr page'
      \<and> has_records page' \<and> lacks_paging page'"
  then have "make_paged_get_request http_get access_token lg endpoint params =
      paged_loop http_get lg (JList (page_records page)) (next_cursor page)"
    by (intro first_page_loop) simp_all
  also have "\<dots> = Some (Inl (KeyError (JStr ''paging'')), lg)"
    by (rule paged_loop_lacks_paging [where page = page']) (simp_all add: a)
  finally show "make_paged_get_request http_get access_token lg endpoint params =
      Some (Inl (KeyError (JStr ''paging'')), lg)" .
qed

theorem missing_paging_raises_after_first_page_witness:
  "make_paged_get_request (serving (bare_page [comment_1]) []) ''token'' [] ''/10/comments'' [] =
     Some (Inr (JList [comment_1]), [])
   \<and> make_paged_get_request
       (serving (mock_page [comment_1] (JStr ''next/2''))
          [(JStr ''next/2'', bare_page [comment_2])])
       ''token'' [] ''/10/comments'' [] =
     Some (Inl (KeyError (JStr ''paging'')), [])"
proof -
  let ?first = "mock_page [comment_1] (JStr ''next/2'')"
  let ?net = "serving ?first [(JStr ''next/2'', bare_page [comment_2])]"
  have one: "serving (bare_page [comment_1]) [] (JStr (BASE_URL @ ''/10/comments''))
               (AList.update ''access_token'' (JStr ''token'') []) = Inr (bare_page [comment_1])
             \<and> has_records (bare_page [comment_1]) \<and> lacks_paging (bare_page [comment_1])"
    by code_simp
  have two: "?net (JStr (BASE_URL @ ''/10/comments''))
               (AList.update ''access_token'' (JStr ''token'') []) = Inr ?first
             \<and> has_records ?first \<and> has_paging ?first \<and> next_cursor ?first \<noteq> JNull
             \<and> ?net (next_cursor ?first) [] = Inr (bare_page [comment_2])
             \<and> has_records (bare_page [comment_2]) \<and> lacks_paging (bare_page [comment_2])"
    by code_simp
  have records: "page_records (bare_page [comment_1]) = [comment_1]"
    by code_simp
  from one missing_paging_raises_after_first_page
    [where http_get = "serving (bare_page [comment_1]) []" and endpoint = "''/10/comments''"
       and access_token = "''token''" and params = "[]" and page = "bare_page [comment_1]"
       and lg = "[]"]
  have "make_paged_get_request (serving (bare_page [comment_1]) []) ''token'' []
          ''/10/comments'' [] = Some (Inr (JList (page_records (bare_page [comment_1]))), [])"
    by blast
  moreover from two missing_paging_raises_after_first_page
    [where http_get = ?net and endpoint = "''/10/comments''" and access_token = "''token''"
       and params = "[]" and page = ?first and page' = "bare_page [comment_2]" and lg = "[]"]
  have "make_paged_get_request ?net ''token'' [] ''/10/comments'' [] =
          Some (Inl (KeyError (JStr ''paging'')), [])"
    by blast
  ultimately show ?thesis
    unfolding records by blast
qed

text \<open>
  A body without a \<open>data\<close> field on the paged path, first page or later: the error is
  logged and \<open>exit(1)\<close> is called.
\<close>

lemma first_page_missing_data_exits:
  assumes "http_get (JStr (BASE_URL @ endpoint))
             (AList.update ''access_token'' (JStr access_token) params) = Inr body"
    and "py_contains ''data'' body = Inr False"
  shows "make_paged_get_request http_get access_token lg endpoint params =
           Some (Inl (SystemExit 1), lg @ [missing_data_record body])"
  unfolding make_paged_get_request_def by (simp add: assms)

lemma later_page_missing_data_exits:
  assumes "cursor \<noteq> JNull" "http_get cursor [] = Inr body"
    and "py_contains ''data'' body = Inr False"
  shows "paged_loop http_get lg result cursor =
           Some (Inl (SystemExit 1), lg @ [missing_data_record body])"
  by (subst paged_loop.simps) (simp add: assms)

text \<open>The same body on the metrics path: the subscript raises \<open>KeyError\<close>.\<close>

lemma raw_metrics_missing_data_raises:
  assumes "make_get_request http_get access_token
             (''/'' @ post_id @ ''/insights?metric='' @ join '','' metrics) [] = Inr (JObj kvs)"
    and "map_of kvs ''data'' = None"
  shows "get_raw_metrics_for_post http_get access_token post_id metrics =
           Inl (KeyError (JStr ''data''))"
    and "get_metrics_for_post http_get access_token post_id metrics =
           Inl (KeyError (JStr ''data''))"
  using assms by (simp_all add: get_raw_metrics_for_post_def get_metrics_for_post_def)

text \<open>
  C2. When the response to the request for the metrics of a post is the API's error body,
  which has no \<open>data\<close> field, \<open>get_raw_metrics_for_post\<close> and \<open>get_metrics_for_post\<close>
  raise \<open>KeyError\<close>: nothing is logged and \<open>exit\<close> is not called. The paged request that
  gets the same body logs it and calls \<open>exit(1)\<close>.
\<close>

theorem metrics_missing_data_raises_key_error:
  "get_raw_metrics_for_post (serving error_body []) ''token'' ''10'' [''post_impressions''] =
     Inl (KeyError (JStr ''data''))
   \<and> get_metrics_for_post (serving error_body []) ''token'' ''10'' [''post_impressions''] =
     Inl (KeyError (JStr ''data''))
   \<and> make_paged_get_request (serving error_body []) ''token'' [] ''/10/comments'' [] =
     Some (Inl (SystemExit 1), [missing_data_record error_body])"
  by (simp add: get_raw_metrics_for_post_def get_metrics_for_post_def make_get_request_def
      make_paged_get_request_def serving_def error_body_def)

subsection \<open>The type of a post\<close>

lemma clean_attachment_photo:
  "is_photo a \<Longrightarrow> clean_attachment post_type a =
     (if post_type \<in> {Some ''photo'', None} then Inr (Some ''photo'') else Inl AssertionError)"
  by (auto simp: is_photo_def field_Some clean_attachment_def)

lemma clean_attachment_video:
  "is_video a \<Longrightarrow> clean_attachment post_type a =
     (if post_type \<in> {Some ''video'', None} then Inr (Some ''video'') else Inl AssertionError)"
  by (auto simp: is_video_def field_Some clean_attachment_def)

lemma py_key_JStr: "py_key t = Inr (JStr s) \<longleftrightarrow> t = JStr s"
  by (cases t) auto

lemma clean_attachment_other:
  assumes "has_type a" "\<not> is_photo a" "\<not> is_video a"
  shows "clean_attachment post_type a = Inl AssertionError"
proof -
  from assms(1) obtain kvs t k where a: "a = JObj kvs" "map_of kvs ''type'' = Some t"
    and k: "py_key t = Inr k"
    by (auto simp: has_type_def field_Some split: option.splits sum.splits)
  from assms(2,3) a have "t \<noteq> JStr ''photo''" "t \<noteq> JStr ''video_inline''"
    "t \<noteq> JStr ''video_direct_response''"
    by (auto simp: is_photo_def is_video_def field_Some)
  with k have "k \<noteq> JStr ''photo''" "k \<noteq> JStr ''video_inline''"
    "k \<noteq> JStr ''video_direct_response''"
    by (auto simp: py_key_JStr)
  with a k show ?thesis
    by (simp add: clean_attachment_def)
qed

lemma post_attachments_clean:
  "post_attachments post = Some xs \<Longrightarrow> clean_post_type post = clean_attachments None xs"
  by (auto simp: post_attachments_def clean_post_type_def bind_eq_Some_conv the_list_Some
      field_getitem)

lemma clean_attachments_photos:
  "list_all is_photo xs \<Longrightarrow> xs \<noteq> [] \<Longrightarrow> post_type \<in> {Some ''photo'', None} \<Longrightarrow>
   clean_attachments post_type xs = Inr (Some ''photo'')"
proof (induction xs arbitrary: post_type)
  case Nil
  then show ?case by simp
next
  case (Cons a xs)
  then show ?case
    by (cases xs) (simp_all add: clean_attachment_photo)
qed

lemma clean_attachments_videos:
  "list_all is_video xs \<Longrightarrow> xs \<noteq> [] \<Longrightarrow> post_type \<in> {Some ''video'', None} \<Longrightarrow>
   clean_attachments post_type xs = Inr (Some ''video'')"
proof (induction xs arbitrary: post_type)
  case Nil
  then show ?case by simp
next
  case (Cons a xs)
  then show ?case
    by (cases xs) (simp_all add: clean_attachment_video)
qed

text \<open>
  A post whose attachments are all of photo kind, and not none, has the type
  \<open>photo\<close>; a post whose attachments are all of video kind, and not none, has the type
  \<open>video\<close>; a post with an empty attachment list has no type.
\<close>

theorem clean_post_type_photo_video_none:
  "post_attachments post = Some xs \<Longrightarrow>
     (xs \<noteq> [] \<and> list_all is_photo xs \<longrightarrow> clean_post_type post = Inr (Some ''photo''))
     \<and> (xs \<noteq> [] \<and> list_all is_video xs \<longrightarrow> clean_post_type post = Inr (Some ''video''))
     \<and> (xs = [] \<longrightarrow> clean_post_type post = Inr None)"
  by (auto simp: post_attachments_clean clean_attachments_photos clean_attachments_videos)

theorem clean_post_type_photo_video_none_witness:
  "post_attachments (post_with [attachment ''photo'', attachment ''photo''])
     = Some [attachment ''photo'', attachment ''photo'']
   \<and> list_all is_photo [attachment ''photo'', attachment ''photo'']
   \<and> clean_post_type (post_with [attachment ''photo'', attachment ''photo'']) = Inr (Some ''photo'')
   \<and> post_attachments (post_with [attachment ''video_inline'', attachment ''video_direct_response''])
     = Some [attachment ''video_inline'', attachment ''video_direct_response'']
   \<and> list_all is_video [attachment ''video_inline'', attachment ''video_direct_response'']
   \<and> clean_post_type (post_with [attachment ''video_inline'', attachment ''video_direct_response''])
     = Inr (Some ''video'')
   \<and> post_attachments (post_with []) = Some []
   \<and> clean_post_type (post_with []) = Inr None"
proof -
  let ?photos = "[attachment ''photo'', attachment ''photo'']"
  let ?videos = "[attachment ''video_inline'', attachment ''video_direct_response'']"
  have p: "post_attachments (post_with ?photos) = Some ?photos" "list_all is_photo ?photos"
    by code_simp+
  have v: "post_attachments (post_with ?videos) = Some ?videos" "list_all is_video ?videos"
    by code_simp+
  have n: "post_attachments (post_with []) = Some []"
    by code_simp
  from clean_post_type_photo_video_none [OF p(1)] p(2)
  have "clean_post_type (post_with ?photos) = Inr (Some ''photo'')" by blast
  moreover from clean_post_type_photo_video_none [OF v(1)] v(2)
  have "clean_post_type (post_with ?videos) = Inr (Some ''video'')" by blast
  moreover from clean_post_type_photo_video_none [OF n]
  have "clean_post_type (post_with []) = Inr None" by blast
  ultimately show ?thesis using p v n by blast
qed

text \<open>A post without an \<open>attachments\<close> field has no attachment list: the subscript raises.\<close>

lemma clean_post_type_without_attachments_field:
  "the_dict post \<noteq> None \<Longrightarrow> field ''attachments'' post = None \<Longrightarrow>
   clean_post_type post = Inl (KeyError (JStr ''attachments''))"
  by (cases post) (auto simp: field_def clean_post_type_def)

text \<open>
  C3. A post with attachments of photo kind only has the type \<open>photo\<close>, and one with
  attachments of video kind only the type \<open>video\<close>. Of the posts with no attachments,
  the one with an empty attachment list has no type, and the one without an
  \<open>attachments\<close> field, which is the post \<open>get_post\<close> returns for its default
  fields, makes \<open>clean_post_type\<close> raise \<open>KeyError\<close> for the key \<open>attachments\<close>.
\<close>

theorem post_without_attachments_field_raises:
  "clean_post_type (post_with [attachment ''photo'']) = Inr (Some ''photo'')
   \<and> clean_post_type (post_with [attachment ''video_inline'']) = Inr (Some ''video'')
   \<and> clean_post_type (post_with []) = Inr None
   \<and> field ''attachments'' text_post = None
   \<and> clean_post_type text_post = Inl (KeyError (JStr ''attachments''))"
  by (simp add: clean_post_type_def clean_attachment_def post_with_def attachment_def
      text_post_def field_def)

text \<open>Conflicts, by induction on the attachments left, for any type found so far.\<close>

lemma clean_attachment_cases:
  assumes "has_type a"
  shows "clean_attachment post_type a = Inl AssertionError
         \<or> (is_photo a \<and> clean_attachment post_type a = Inr (Some ''photo''))
         \<or> (is_video a \<and> clean_attachment post_type a = Inr (Some ''video''))"
proof (cases "is_photo a")
  case True
  then show ?thesis by (simp add: clean_attachment_photo)
next
  case False
  show ?thesis
  proof (cases "is_video a")
    case True
    then show ?thesis by (simp add: clean_attachment_video)
  next
    case False
    with \<open>\<not> is_photo a\<close> assms show ?thesis by (simp add: clean_attachment_other)
  qed
qed

lemma photo_not_video: "is_photo a \<Longrightarrow> \<not> is_video a"
  by (auto simp: is_photo_def is_video_def)

lemma clean_attachments_unrecognised:
  "list_all has_type xs \<Longrightarrow> \<exists>a \<in> set xs. \<not> is_photo a \<and> \<not> is_video a \<Longrightarrow>
   clean_attachments post_type xs = Inl AssertionError"
proof (induction xs arbitrary: post_type)
  case Nil
  then show ?case by simp
next
  case (Cons a xs)
  from Cons.prems(1) have ta: "has_type a" and txs: "list_all has_type xs" by simp_all
  show ?case
  proof (cases "\<not> is_photo a \<and> \<not> is_video a")
    case True
    with ta show ?thesis by (simp add: clean_attachment_other)
  next
    case False
    with Cons.prems(2) have "\<exists>b \<in> set xs. \<not> is_photo b \<and> \<not> is_video b" by auto
    from Cons.IH [OF txs this] clean_attachment_cases [OF ta, of post_type]
    show ?thesis by auto
  qed
qed

lemma clean_attachments_photo_after_video:
  "list_all has_type xs \<Longrightarrow> \<exists>a \<in> set xs. is_photo a \<Longrightarrow>
   clean_attachments (Some ''video'') xs = Inl AssertionError"
proof (induction xs)
  case Nil
  then show ?case by simp
next
  case (Cons a xs)
  from Cons.prems(1) have ta: "has_type a" and txs: "list_all has_type xs" by simp_all
  show ?case
  proof (cases "is_photo a")
    case True
    then show ?thesis by (simp add: clean_attachment_photo)
  next
    case False
    with Cons.prems(2) have "\<exists>b \<in> set xs. is_photo b" by auto
    from Cons.IH [OF txs this] False clean_attachment_cases [OF ta, of "Some ''video''"]
    show ?thesis by auto
  qed
qed

lemma clean_attachments_video_after_photo:
  "list_all has_type xs \<Longrightarrow> \<exists>a \<in> set xs. is_video a \<Longrightarrow>
   clean_attachments (Some ''photo'') xs = Inl AssertionError"
proof (induction xs)
  case Nil
  then show ?case by simp
next
  case (Cons a xs)
  from Cons.prems(1) have ta: "has_type a" and txs: "list_all has_type xs" by simp_all
  show ?case
  proof (cases "is_video a")
    case True
    then show ?thesis by (simp add: clean_attachment_video)
  next
    case False
    with Cons.prems(2) have "\<exists>b \<in> set xs. is_video b" by auto
    from Cons.IH [OF txs this] False clean_attachment_cases [OF ta, of "Some ''photo''"]
    show ?thesis by auto
  qed
qed

lemma clean_attachments_mixed:
  "list_all has_type xs \<Longrightarrow> \<exists>a \<in> set xs. is_photo a \<Longrightarrow> \<exists>a \<in> set xs. is_video a \<Longrightarrow>
   clean_attachments post_type xs = Inl AssertionError"
proof (induction xs arbitrary: post_type)
  case Nil
  then show ?case by simp
next
  case (Cons a xs)
  from Cons.prems(1) have ta: "has_type a" and txs: "list_all has_type xs" by simp_all
  from clean_attachment_cases [OF ta, of post_type] show ?case
  proof (elim disjE conjE)
    assume "clean_attachment post_type a = Inl AssertionError"
    then show ?thesis by simp
  next
    assume a: "is_photo a" "clean_attachment post_type a = Inr (Some ''photo'')"
    with Cons.prems(3) have "\<exists>b \<in> set xs. is_video b"
      by (auto dest: photo_not_video)
    from clean_attachments_video_after_photo [OF txs this] a show ?thesis by simp
  next
    assume a: "is_video a" "clean_attachment post_type a = Inr (Some ''video'')"
    with Cons.prems(2) have "\<exists>b \<in> set xs. is_photo b"
      by (auto dest: photo_not_video)
    from clean_attachments_photo_after_video [OF txs this] a show ?thesis by simp
  qed
qed

text \<open>
  C7. A post whose attachments all have a type, and either some are of photo kind and
  some of video kind, or one is of neither kind, makes \<open>clean_post_type\<close> fail an
  assertion.
\<close>

theorem clean_post_type_conflict_raises:
  "post_attachments post = Some xs \<Longrightarrow> list_all has_type xs \<Longrightarrow>
   ((\<exists>a \<in> set xs. is_photo a) \<and> (\<exists>a \<in> set xs. is_video a))
     \<or> (\<exists>a \<in> set xs. \<not> is_photo a \<and> \<not> is_video a) \<Longrightarrow>
   clean_post_type post = Inl AssertionError"
  using clean_attachments_mixed [of xs None] clean_attachments_unrecognised [of xs None]
  by (auto simp: post_attachments_clean)

theorem clean_post_type_conflict_raises_witness:
  "post_attachments (post_with [attachment ''photo'', attachment ''video_inline''])
     = Some [attachment ''photo'', attachment ''video_inline'']
   \<and> list_all has_type [attachment ''photo'', attachment ''video_inline'']
   \<and> is_photo (attachment ''photo'') \<and> is_video (attachment ''video_inline'')
   \<and> clean_post_type (post_with [attachment ''photo'', attachment ''video_inline''])
       = Inl AssertionError
   \<and> post_attachments (post_with [attachment ''photo'', attachment ''share''])
     = Some [attachment ''photo'', attachment ''share'']
   \<and> list_all has_type [attachment ''photo'', attachment ''share'']
   \<and> \<not> is_photo (attachment ''share'') \<and> \<not> is_video (attachment ''share'')
   \<and> clean_post_type (post_with [attachment ''photo'', attachment ''share''])
       = Inl AssertionError"
proof -
  let ?mixed = "[attachment ''photo'', attachment ''video_inline'']"
  let ?other = "[attachment ''photo'', attachment ''share'']"
  have m: "post_attachments (post_with ?mixed) = Some ?mixed" "list_all has_type ?mixed"
    "is_photo (attachment ''photo'')" "is_video (attachment ''video_inline'')"
    by code_simp+
  have o: "post_attachments (post_with ?other) = Some ?other" "list_all has_type ?other"
    "\<not> is_photo (attachment ''share'')" "\<not> is_video (attachment ''share'')"
    by code_simp+
  have "clean_post_type (post_with ?mixed) = Inl AssertionError"
    by (rule clean_post_type_conflict_raises [OF m(1,2)]) (use m(3,4) in simp)
  moreover have "clean_post_type (post_with ?other) = Inl AssertionError"
    by (rule clean_post_type_conflict_raises [OF o(1,2)]) (use o(3,4) in simp)
  ultimately show ?thesis using m o by blast
qed

subsection \<open>Metrics\<close>

lemma well_formed_metricE:
  assumes "well_formed_metric m"
  obtains kvs name vs where "m = JObj kvs" "map_of kvs ''name'' = Some (JStr name)"
    "map_of kvs ''values'' = Some (JList vs)" "list_all (\<lambda>v. field ''value'' v \<noteq> None) vs"
proof -
  from assms obtain name where n: "field ''name'' m = Some (JStr name)"
    by (auto simp: well_formed_metric_def split: option.splits json.splits)
  from assms obtain vs where v: "metric_values m = Some vs"
    "list_all (\<lambda>v. field ''value'' v \<noteq> None) vs"
    by (auto simp: well_formed_metric_def split: option.splits)
  from n v(1) obtain kvs where "m = JObj kvs" "map_of kvs ''name'' = Some (JStr name)"
    "map_of kvs ''values'' = Some (JList vs)"
    by (auto simp: metric_values_def field_Some bind_eq_Some_conv the_list_Some)
  with v(2) show ?thesis by (intro that)
qed

lemma clean_metric_single:
  assumes "well_formed_metric m" "single_valued m"
  shows "\<exists>k v. metric_entry m = Some (k, v) \<and>
           clean_metric cleaned m = Inr (AList.update k v cleaned)"
proof -
  from assms(1) obtain kvs name vs where m: "m = JObj kvs"
    "map_of kvs ''name'' = Some (JStr name)" "map_of kvs ''values'' = Some (JList vs)"
    and vs: "list_all (\<lambda>v. field ''value'' v \<noteq> None) vs"
    by (rule well_formed_metricE)
  from m assms(2) have "length vs = 1"
    by (simp add: single_valued_def metric_values_def field_def)
  then obtain v0 where v0: "vs = [v0]"
    by (cases vs) auto
  with vs obtain v where v: "field ''value'' v0 = Some v"
    by auto
  have "metric_entry m = Some (JStr name, v)"
    by (simp add: metric_entry_def metric_values_def field_def m v0 v [unfolded field_def])
  moreover have "clean_metric cleaned m = Inr (AList.update (JStr name) v cleaned)"
    by (simp add: clean_metric_def m v0 field_getitem [OF v])
  ultimately show ?thesis by blast
qed

lemma clean_metric_not_single:
  assumes "well_formed_metric m" "\<not> single_valued m"
  shows "clean_metric cleaned m = Inl AssertionError"
proof -
  from assms(1) obtain kvs name vs where m: "m = JObj kvs"
    "map_of kvs ''name'' = Some (JStr name)" "map_of kvs ''values'' = Some (JList vs)"
    by (rule well_formed_metricE)
  from m assms(2) have "length vs \<noteq> 1"
    by (simp add: single_valued_def metric_values_def field_def)
  with m show ?thesis
    by (simp add: clean_metric_def)
qed

lemma clean_metrics_all_single:
  "list_all well_formed_metric ms \<Longrightarrow> list_all single_valued ms \<Longrightarrow>
   \<exists>cleaned'. clean_metrics cleaned ms = Inr cleaned' \<and>
     map_of cleaned' = map_of cleaned ++ map_of (rev (List.map_filter metric_entry ms))"
proof (induction ms arbitrary: cleaned)
  case Nil
  then show ?case by (simp add: map_filter_simps)
next
  case (Cons m ms)
  from Cons.prems have "well_formed_metric m" "single_valued m" by simp_all
  from clean_metric_single [OF this, of cleaned] obtain k v where
    e: "metric_entry m = Some (k, v)" and c: "clean_metric cleaned m = Inr (AList.update k v cleaned)"
    by blast
  from Cons.prems have "list_all well_formed_metric ms" "list_all single_valued ms" by simp_all
  from Cons.IH [OF this, of "AList.update k v cleaned"] obtain cleaned' where
    r: "clean_metrics (AList.update k v cleaned) ms = Inr cleaned'"
    and mp: "map_of cleaned' = map_of (AList.update k v cleaned)
               ++ map_of (rev (List.map_filter metric_entry ms))"
    by blast
  have "map_of (AList.update k v cleaned) = map_of cleaned ++ [k \<mapsto> v]"
    by (simp add: update_conv')
  with mp have "map_of cleaned' =
      map_of cleaned ++ map_of (rev (List.map_filter metric_entry (m # ms)))"
    by (simp add: map_filter_simps e)
  with c r show ?case by simp
qed

lemma clean_metrics_assertion:
  "list_all well_formed_metric ms \<Longrightarrow>
   clean_metrics cleaned ms = Inl AssertionError \<longleftrightarrow> (\<exists>m \<in> set ms. \<not> single_valued m)"
proof (induction ms arbitrary: cleaned)
  case Nil
  then show ?case by simp
next
  case (Cons m ms)
  from Cons.prems have wf: "well_formed_metric m" and wfs: "list_all well_formed_metric ms"
    by simp_all
  show ?case
  proof (cases "single_valued m")
    case True
    from clean_metric_single [OF wf True, of cleaned] obtain k v where
      "clean_metric cleaned m = Inr (AList.update k v cleaned)" by blast
    with True Cons.IH [OF wfs, of "AList.update k v cleaned"] show ?thesis by simp
  next
    case False
    with clean_metric_not_single [OF wf False, of cleaned] show ?thesis by simp
  qed
qed

text \<open>
  C4. When the API answers with well-formed metrics, \<open>get_raw_metrics_for_post\<close>
  returns them as they are, whatever the number of their values;
  \<open>get_metrics_for_post\<close> fails an assertion exactly when one of them has a number of
  values other than one, and otherwise returns the dictionary of their entries, a later
  metric replacing an earlier one of the same name.
\<close>

theorem metrics_single_value_or_assertion:
  assumes "make_get_request http_get access_token
             (''/'' @ post_id @ ''/insights?metric='' @ join '','' metrics) [] = Inr body"
    and "field ''data'' body = Some (JList ms)"
    and "list_all well_formed_metric ms"
  shows "get_raw_metrics_for_post http_get access_token post_id metrics = Inr (JList ms)
    \<and> (get_metrics_for_post http_get access_token post_id metrics = Inl AssertionError
         \<longleftrightarrow> (\<exists>m \<in> set ms. \<not> single_valued m))
    \<and> (list_all single_valued ms \<longrightarrow>
         (\<exists>cleaned. get_metrics_for_post http_get access_token post_id metrics = Inr cleaned
            \<and> map_of cleaned = map_of (rev (List.map_filter metric_entry ms))))"
proof -
  have raw: "get_raw_metrics_for_post http_get access_token post_id metrics = Inr (JList ms)"
    using assms(1) by (simp add: get_raw_metrics_for_post_def field_getitem [OF assms(2)])
  then have cleaned: "get_metrics_for_post http_get access_token post_id metrics =
      clean_metrics [] ms"
    by (simp add: get_metrics_for_post_def)
  from clean_metrics_all_single [OF assms(3), of "[]"] clean_metrics_assertion [OF assms(3), of "[]"]
  show ?thesis
    unfolding cleaned using raw by simp
qed

theorem metrics_single_value_or_assertion_witness:
  "make_get_request (serving (metrics_body [metric ''post_clicks'' [JInt 7, JInt 9]]) []) ''token''
       (''/'' @ ''10'' @ ''/insights?metric='' @ join '','' [''post_clicks'']) []
     = Inr (metrics_body [metric ''post_clicks'' [JInt 7, JInt 9]])
   \<and> field ''data'' (metrics_body [metric ''post_clicks'' [JInt 7, JInt 9]])
     = Some (JList [metric ''post_clicks'' [JInt 7, JInt 9]])
   \<and> list_all well_formed_metric [metric ''post_clicks'' [JInt 7, JInt 9]]
   \<and> \<not> single_valued (metric ''post_clicks'' [JInt 7, JInt 9])
   \<and> get_raw_metrics_for_post (serving (metrics_body [metric ''post_clicks'' [JInt 7, JInt 9]]) [])
       ''token'' ''10'' [''post_clicks''] = Inr (JList [metric ''post_clicks'' [JInt 7, JInt 9]])
   \<and> get_metrics_for_post (serving (metrics_body [metric ''post_clicks'' [JInt 7, JInt 9]]) [])
       ''token'' ''10'' [''post_clicks''] = Inl AssertionError
   \<and> list_all single_valued [metric ''post_impressions'' [JInt 42], metric ''post_clicks'' [JInt 7]]
   \<and> (\<exists>cleaned.
         get_metrics_for_post
           (serving (metrics_body [metric ''post_impressions'' [JInt 42],
                                   metric ''post_clicks'' [JInt 7]]) [])
           ''token'' ''10'' [''post_impressions'', ''post_clicks''] = Inr cleaned
         \<and> map_of cleaned = map_of [(JStr ''post_clicks'', JInt 7),
                                     (JStr ''post_impressions'', JInt 42)])"
proof -
  let ?two = "[metric ''post_clicks'' [JInt 7, JInt 9]]"
  let ?ones = "[metric ''post_impressions'' [JInt 42], metric ''post_clicks'' [JInt 7]]"
  have a: "make_get_request (serving (metrics_body ?two) []) ''token''
       (''/'' @ ''10'' @ ''/insights?metric='' @ join '','' [''post_clicks'']) []
     = Inr (metrics_body ?two)"
    "field ''data'' (metrics_body ?two) = Some (JList ?two)"
    "list_all well_formed_metric ?two"
    "\<not> single_valued (metric ''post_clicks'' [JInt 7, JInt 9])"
    by code_simp+
  have b: "make_get_request (serving (metrics_body ?ones) []) ''token''
       (''/'' @ ''10'' @ ''/insights?metric='' @ join '','' [''post_impressions'', ''post_clicks'']) []
     = Inr (metrics_body ?ones)"
    "field ''data'' (metrics_body ?ones) = Some (JList ?ones)"
    "list_all well_formed_metric ?ones"
    "list_all single_valued ?ones"
    by code_simp+
  have entries: "rev (List.map_filter metric_entry ?ones) =
      [(JStr ''post_clicks'', JInt 7), (JStr ''post_impressions'', JInt 42)]"
    by code_simp
  from metrics_single_value_or_assertion [OF a(1,2,3)] a(4)
  have "get_raw_metrics_for_post (serving (metrics_body ?two) []) ''token'' ''10''
          [''post_clicks''] = Inr (JList ?two)"
    "get_metrics_for_post (serving (metrics_body ?two) []) ''token'' ''10''
          [''post_clicks''] = Inl AssertionError"
    by auto
  moreover from metrics_single_value_or_assertion [OF b(1,2,3)] b(4)
  have "\<exists>cleaned. get_metrics_for_post (serving (metrics_body ?ones) []) ''token'' ''10''
          [''post_impressions'', ''post_clicks''] = Inr cleaned
        \<and> map_of cleaned = map_of (rev (List.map_filter metric_entry ?ones))"
    by blast
  ultimately show ?thesis
    using a b(4) unfolding entries by blast
qed

subsection \<open>Dates in request parameters\<close>

lemma str_replace_offset:
  "CHR ''+'' \<notin> set body \<Longrightarrow> str_replace ''+00:00'' ''Z'' (body @ ''+00:00'') = body @ ''Z''"
  by (induction body) auto

lemma utc_iso_stringE:
  assumes "utc_iso_string s"
  obtains body where "s = body @ ''+00:00''" "CHR ''+'' \<notin> set body"
proof -
  let ?body = "take (length s - 6) s"
  have l: "length ''+00:00'' = 6" by simp
  from assms have "drop (length s - length ''+00:00'') s = ''+00:00''"
    "CHR ''+'' \<notin> set ?body"
    unfolding utc_iso_string_def ends_with_def by blast+
  then have "drop (length s - 6) s = ''+00:00''" "CHR ''+'' \<notin> set ?body"
    unfolding l by blast+
  then have "s = ?body @ ''+00:00''"
    by (metis append_take_drop_id)
  with \<open>CHR ''+'' \<notin> set ?body\<close> show ?thesis by (intro that)
qed

lemma ends_with_append: "ends_with suffix (body @ suffix)"
  by (simp add: ends_with_def)

lemma with_z_suffix_offset: "with_z_suffix (body @ ''+00:00'') = body @ ''Z''"
proof -
  have "length (body @ ''+00:00'') - 6 = length body" by simp
  then show ?thesis
    unfolding with_z_suffix_def by (simp only: ends_with_append if_True take_append) simp
qed

lemma date_to_facebook_time_converts:
  assumes "converts lib date"
  shows "date_to_facebook_time lib date = Inr (facebook_time lib date)"
proof -
  from assms obtain utc where u: "astimezone_utc lib date = Inr utc"
    and "utc_iso_string (isoformat lib utc)"
    by (auto simp: converts_def split: sum.splits)
  then obtain body where b: "isoformat lib utc = body @ ''+00:00''" "CHR ''+'' \<notin> set body"
    by (auto elim: utc_iso_stringE)
  show ?thesis
    by (simp only: date_to_facebook_time_def facebook_time_def u b(1) sum.case
        str_replace_offset [OF b(2)] with_z_suffix_offset)
qed

lemma posts_params_converts:
  assumes "\<forall>d \<in> set_option created_after \<union> set_option created_before. converts lib d"
  shows "\<exists>params. posts_params lib fields created_after created_before = Inr params
    \<and> map_of params ''since'' = map_option (\<lambda>d. JStr (facebook_time lib d)) created_after
    \<and> map_of params ''until'' = map_option (\<lambda>d. JStr (facebook_time lib d)) created_before
    \<and> map_of params ''fields'' = Some (JStr (join '','' fields))
    \<and> map_of params ''limit'' = Some (JInt MAX_RESULTS_PER_PAGE)
    \<and> fst ` set params \<subseteq> {''fields'', ''limit'', ''since'', ''until''}"
  using assms
  by (cases created_after; cases created_before)
     (simp_all add: posts_params_def date_to_facebook_time_converts update_conv'
        dom_update [simplified dom_map_of_conv_image_fst] del: AList.update.simps
        flip: dom_map_of_conv_image_fst)

lemma paged_request_fails:
  assumes "http_get (JStr (BASE_URL @ endpoint))
             (AList.update ''access_token'' (JStr access_token) params) = Inl e"
  shows "make_paged_get_request http_get access_token lg endpoint params = Some (Inl e, lg)"
  by (simp add: make_paged_get_request_def assms)

lemma paged_request_single_page:
  assumes "http_get (JStr (BASE_URL @ endpoint))
             (AList.update ''access_token'' (JStr access_token) params) = Inr page"
    and "has_records page" "lacks_paging page"
  shows "make_paged_get_request http_get access_token lg endpoint params =
           Some (Inr (JList (page_records page)), lg)"
proof -
  have "make_paged_get_request http_get access_token lg endpoint params =
      paged_loop http_get lg (JList (page_records page)) (next_cursor page)"
    using assms by (intro first_page_loop) simp_all
  also have "next_cursor page = JNull"
    using assms(3) lacks_paging_get by blast
  finally show ?thesis
    by (simp add: paged_loop.simps)
qed

text \<open>
  C6. Where the library converts the dates given, \<open>get_posts_published_by_page\<close> sends
  its first request with parameters \<open>out\<close> in which \<open>since\<close> is the Facebook time of
  \<open>created_after\<close> and \<open>until\<close> that of \<open>created_before\<close>, the parameter of a date that
  is \<open>None\<close> is absent, and the only other parameters are \<open>fields\<close>, \<open>limit\<close> and
  \<open>access_token\<close>: on every network, what the network answers to the request with
  exactly these parameters is what the call raises, or the page whose records it returns.
\<close>

theorem posts_request_has_since_and_until:
  assumes "\<forall>d \<in> set_option created_after \<union> set_option created_before. converts lib d"
  shows "\<exists>out.
     map_of out ''since'' = map_option (\<lambda>d. JStr (facebook_time lib d)) created_after
     \<and> map_of out ''until'' = map_option (\<lambda>d. JStr (facebook_time lib d)) created_before
     \<and> map_of out ''fields'' = Some (JStr (join '','' fields))
     \<and> map_of out ''limit'' = Some (JInt MAX_RESULTS_PER_PAGE)
     \<and> map_of out ''access_token'' = Some (JStr access_token)
     \<and> fst ` set out \<subseteq> {''fields'', ''limit'', ''since'', ''until'', ''access_token''}
     \<and> (\<forall>http_get lg e.
           http_get (JStr (BASE_URL @ ''/'' @ page_id @ ''/published_posts'')) out = Inl e \<longrightarrow>
           map_option fst (get_posts_published_by_page lib http_get access_token lg page_id
                             fields created_after created_before) = Some (Inl e))
     \<and> (\<forall>http_get lg page.
           http_get (JStr (BASE_URL @ ''/'' @ page_id @ ''/published_posts'')) out = Inr page
           \<and> has_records page \<and> lacks_paging page \<longrightarrow>
           map_option fst (get_posts_published_by_page lib http_get access_token lg page_id
                             fields created_after created_before) =
             Some (Inr (JList (page_records page))))"
proof -
  from posts_params_converts [OF assms, of fields] obtain params where
    p: "posts_params lib fields created_after created_before = Inr params"
    and s: "map_of params ''since'' = map_option (\<lambda>d. JStr (facebook_time lib d)) created_after"
    and u: "map_of params ''until'' = map_option (\<lambda>d. JStr (facebook_time lib d)) created_before"
    and f: "map_of params ''fields'' = Some (JStr (join '','' fields))"
    and l: "map_of params ''limit'' = Some (JInt MAX_RESULTS_PER_PAGE)"
    and k: "fst ` set params \<subseteq> {''fields'', ''limit'', ''since'', ''until''}"
    by blast
  let ?out = "AList.update ''access_token'' (JStr access_token) params"
  let ?endpoint = "''/'' @ page_id @ ''/published_posts''"
  have posts: "\<And>http_get lg.
      get_posts_published_by_page lib http_get access_token lg page_id fields
         created_after created_before =
       map_option (log_fetched '' posts'')
         (make_paged_get_request http_get access_token
            (lg @ [(DEBUG, posts_log_str lib page_id created_after created_before)])
            ?endpoint params)"
    by (simp add: get_posts_published_by_page_def p del: append.simps)
  have keys: "fst ` set ?out \<subseteq> {''fields'', ''limit'', ''since'', ''until'', ''access_token''}"
    using k dom_update [of "''access_token''" "JStr access_token" params]
    by (auto simp: dom_map_of_conv_image_fst)
  have fails: "\<forall>http_get lg e.
      http_get (JStr (BASE_URL @ ?endpoint)) ?out = Inl e \<longrightarrow>
      map_option fst (get_posts_published_by_page lib http_get access_token lg page_id
                        fields created_after created_before) = Some (Inl e)"
  proof (intro allI impI)
    fix http_get :: network and lg e
    assume "http_get (JStr (BASE_URL @ ?endpoint)) ?out = Inl e"
    from paged_request_fails [where http_get = http_get, OF this]
    show "map_option fst (get_posts_published_by_page lib http_get access_token lg page_id
                        fields created_after created_before) = Some (Inl e)"
      unfolding posts by (simp add: log_fetched_def del: append.simps)
  qed
  have answers: "\<forall>http_get lg page.
      http_get (JStr (BASE_URL @ ?endpoint)) ?out = Inr page
      \<and> has_records page \<and> lacks_paging page \<longrightarrow>
      map_option fst (get_posts_published_by_page lib http_get access_token lg page_id
                        fields created_after created_before) =
        Some (Inr (JList (page_records page)))"
  proof (intro allI impI)
    fix http_get :: network and lg page
    assume a: "http_get (JStr (BASE_URL @ ?endpoint)) ?out = Inr page
      \<and> has_records page \<and> lacks_paging page"
    then have "\<And>lg'. make_paged_get_request http_get access_token lg' ?endpoint params =
        Some (Inr (JList (page_records page)), lg')"
      by (intro paged_request_single_page) simp_all
    then show "map_option fst (get_posts_published_by_page lib http_get access_token lg page_id
                        fields created_after created_before) =
        Some (Inr (JList (page_records page)))"
      unfolding posts by (simp add: log_fetched_list del: append.simps)
  qed
  have "map_of ?out ''since'' = map_option (\<lambda>d. JStr (facebook_time lib d)) created_after"
    "map_of ?out ''until'' = map_option (\<lambda>d. JStr (facebook_time lib d)) created_before"
    "map_of ?out ''fields'' = Some (JStr (join '','' fields))"
    "map_of ?out ''limit'' = Some (JInt MAX_RESULTS_PER_PAGE)"
    "map_of ?out ''access_token'' = Some (JStr access_token)"
    using s u f l by (simp_all add: update_conv')
  with keys fails answers show ?thesis
    by (intro exI [of _ ?out]) (simp only: simp_thms)
qed

lemma echo_page:
  "has_records (JObj [(''data'', JList [r])])" "lacks_paging (JObj [(''data'', JList [r])])"
  "page_records (JObj [(''data'', JList [r])]) = [r]"
  by (simp_all add: has_records_def lacks_paging_def page_records_def field_def)

theorem posts_request_has_since_and_until_witness:
  "converts (reference_library 0 [] (\<lambda>n. [])) (Datetime 2020 3 1 1 30 0 (Some 180))
   \<and> (\<exists>out.
        map_of out ''since'' = Some (JStr ''2020-02-29T22:30:00Z'')
        \<and> map_of out ''until'' = None
        \<and> map_option fst
            (get_posts_published_by_page (reference_library 0 [] (\<lambda>n. [])) echo_network
               ''token'' [] ''10'' [''message'']
               (Some (Datetime 2020 3 1 1 30 0 (Some 180))) None) =
            Some (Inr (JList
              [JObj ((''url'', JStr (BASE_URL @ ''/'' @ ''10'' @ ''/published_posts'')) # out)]))
        \<and> map_option fst
            (get_posts_published_by_page (reference_library 0 [] (\<lambda>n. []))
               (\<lambda>url params. if params = out then Inl (OtherError ''ConnectionError'')
                              else echo_network url params)
               ''token'' [] ''10'' [''message'']
               (Some (Datetime 2020 3 1 1 30 0 (Some 180))) None) =
            Some (Inl (OtherError ''ConnectionError'')))"
proof -
  let ?lib = "reference_library 0 [] (\<lambda>n. [])"
  let ?date = "Datetime 2020 3 1 1 30 0 (Some 180)"
  let ?utc = "Datetime 2020 2 29 22 30 0 (Some 0)"
  let ?url = "JStr (BASE_URL @ ''/'' @ ''10'' @ ''/published_posts'')"
  have a: "astimezone_utc ?lib ?date = Inr ?utc"
    by code_simp
  have i: "isoformat ?lib ?utc = ''2020-02-29T22:30:00+00:00''"
    by code_simp
  have u: "utc_iso_string ''2020-02-29T22:30:00+00:00''"
    by code_simp
  have z: "with_z_suffix ''2020-02-29T22:30:00+00:00'' = ''2020-02-29T22:30:00Z''"
    by code_simp
  have c: "converts ?lib ?date"
    by (simp only: converts_def a i u sum.case)
  then have h: "\<forall>d \<in> set_option (Some ?date) \<union> set_option None. converts ?lib d"
    by simp
  have t: "map_option (\<lambda>d. JStr (facebook_time ?lib d)) (Some ?date) =
             Some (JStr ''2020-02-29T22:30:00Z'')"
    by (simp only: facebook_time_def a i z sum.case option.map)
  have n: "map_option (\<lambda>d. JStr (facebook_time ?lib d)) None = None"
    by simp
  from posts_request_has_since_and_until [OF h, of "[''message'']" "''token''" "''10''"]
  obtain out where
    since: "map_of out ''since'' = Some (JStr ''2020-02-29T22:30:00Z'')"
    and until: "map_of out ''until'' = None"
    and fails: "\<forall>http_get lg e.
           http_get ?url out = Inl e \<longrightarrow>
           map_option fst (get_posts_published_by_page ?lib http_get ''token'' lg ''10''
                             [''message''] (Some ?date) None) = Some (Inl e)"
    and answers: "\<forall>http_get lg page.
           http_get ?url out = Inr page \<and> has_records page \<and> lacks_paging page \<longrightarrow>
           map_option fst (get_posts_published_by_page ?lib http_get ''token'' lg ''10''
                             [''message''] (Some ?date) None) =
             Some (Inr (JList (page_records page)))"
    unfolding t n by blast
  let ?page = "JObj [(''data'', JList [JObj ((''url'', ?url) # out)])]"
  have "echo_network ?url out = Inr ?page"
    by (simp only: echo_network_def)
  moreover from answers have "\<forall>lg page.
      echo_network ?url out = Inr page \<and> has_records page \<and> lacks_paging page \<longrightarrow>
      map_option fst (get_posts_published_by_page ?lib echo_network ''token'' lg ''10''
           [''message''] (Some ?date) None) = Some (Inr (JList (page_records page)))"
    by (rule spec)
  ultimately
  have "map_option fst (get_posts_published_by_page ?lib echo_network ''token'' [] ''10''
           [''message''] (Some ?date) None) = Some (Inr (JList (page_records ?page)))"
    using echo_page(1,2) [of "JObj ((''url'', ?url) # out)"] by blast
  then have echo: "map_option fst (get_posts_published_by_page ?lib echo_network ''token'' []
           ''10'' [''message''] (Some ?date) None) =
         Some (Inr (JList [JObj ((''url'', ?url) # out)]))"
    by (simp only: echo_page(3))
  let ?down = "\<lambda>url params. if params = out then Inl (OtherError ''ConnectionError'')
                              else echo_network url params"
  have "?down ?url out = Inl (OtherError ''ConnectionError'')"
    by simp
  moreover from fails have "\<forall>lg e. ?down ?url out = Inl e \<longrightarrow>
      map_option fst (get_posts_published_by_page ?lib ?down ''token'' lg ''10''
           [''message''] (Some ?date) None) = Some (Inl e)"
    by (rule spec)
  ultimately have "map_option fst (get_posts_published_by_page ?lib ?down ''token'' [] ''10''
           [''message''] (Some ?date) None) = Some (Inl (OtherError ''ConnectionError''))"
    by blast
  with c since until echo show ?thesis
    by blast
qed

text \<open>The reference library converts every date that stays within the years 1 to 9999.\<close>

lemma digit_not_plus: "digit n \<noteq> CHR ''+''"
proof -
  have "n mod 10 < length ''0123456789''" by simp
  then have "digit n \<in> set ''0123456789''"
    unfolding digit_def by (rule nth_mem)
  then show ?thesis by auto
qed

lemma reference_library_converts:
  assumes "datetime_astimezone_utc local_offset date = Inr utc"
  shows "converts (reference_library local_offset call_location clock) date"
proof -
  from assms have "dt_utcoffset utc = Some 0"
    by (auto simp: datetime_astimezone_utc_def Let_def split: prod.splits if_splits)
  then obtain body where b: "datetime_isoformat utc = body @ ''+00:00''"
    "CHR ''+'' \<notin> set body"
    by (simp add: datetime_isoformat_def offset_str_def pad2_def pad4_def digit_def [of 0]
        digit_not_plus [symmetric])
  have "length (body @ ''+00:00'') - 6 = length body" by simp
  then have "utc_iso_string (datetime_isoformat utc)"
    unfolding utc_iso_string_def b(1) using b(2) by (simp only: ends_with_append take_append) simp
  with assms show ?thesis
    by (simp add: converts_def reference_library_def)
qed

subsection \<open>Comments\<close>

text \<open>Storing the items of a dictionary under keys with a prefix.\<close>

lemma fold_update_lookup:
  "distinct (map fst xs) \<Longrightarrow> inj f \<Longrightarrow>
   map_of (fold (\<lambda>(k, v). AList.update (f k) v) xs d) (f k) =
     (case map_of xs k of None \<Rightarrow> map_of d (f k) | Some v \<Rightarrow> Some v)"
proof (induction xs arbitrary: d)
  case Nil
  then show ?case by simp
next
  case (Cons x xs)
  obtain k0 v0 where x: "x = (k0, v0)" by (cases x)
  from Cons.prems x have d: "distinct (map fst xs)" and n: "k0 \<notin> fst ` set xs" by auto
  from n have none: "map_of xs k0 = None"
    by (simp add: map_of_eq_None_iff)
  show ?case
  proof (cases "k = k0")
    case True
    with Cons.IH [OF d Cons.prems(2), of "AList.update (f k0) v0 d"] none x show ?thesis
      by (simp add: update_conv')
  next
    case False
    with Cons.prems(2) have "f k \<noteq> f k0" by (auto dest: injD)
    with Cons.IH [OF d Cons.prems(2), of "AList.update (f k0) v0 d"] False x show ?thesis
      by (simp add: update_conv' split: option.splits)
  qed
qed

lemma fold_update_other:
  "a \<notin> range f \<Longrightarrow> map_of (fold (\<lambda>(k, v). AList.update (f k) v) xs d) a = map_of d a"
proof (induction xs arbitrary: d)
  case Nil
  then show ?case by simp
next
  case (Cons x xs)
  obtain k0 v0 where x: "x = (k0, v0)" by (cases x)
  from Cons.prems have "a \<noteq> f k0" by auto
  with Cons.IH [OF Cons.prems, of "AList.update (f k0) v0 d"] x show ?case
    by (simp add: update_conv')
qed

lemma namespaced_not_uuid_key: "dataset_name @ ''.'' @ k \<noteq> ''avf_facebook_id''"
proof
  assume e: "dataset_name @ ''.'' @ k = ''avf_facebook_id''"
  have "CHR ''.'' \<in> set (dataset_name @ ''.'' @ k)" by simp
  then have "CHR ''.'' \<in> set ''avf_facebook_id''" unfolding e .
  then show False by simp
qed

lemma comment_dict_field:
  "map_of (comment_dict dataset_name uuid (AList.clearjunk kvs)) (dataset_name @ ''.'' @ k) =
     map_of kvs k"
proof -
  have "inj (\<lambda>k. dataset_name @ ''.'' @ k)"
    by (rule injI) simp
  from fold_update_lookup [OF distinct_clearjunk this, of kvs "[(''avf_facebook_id'', uuid)]" k]
  have "map_of (comment_dict dataset_name uuid (AList.clearjunk kvs)) (dataset_name @ ''.'' @ k) =
      (case map_of kvs k of
         None \<Rightarrow> map_of [(''avf_facebook_id'', uuid)] (dataset_name @ ''.'' @ k)
       | Some v \<Rightarrow> Some v)"
    unfolding comment_dict_def map_of_clearjunk .
  also have "map_of [(''avf_facebook_id'', uuid)] (dataset_name @ ''.'' @ k) = None"
    using namespaced_not_uuid_key [of dataset_name k] by (simp del: append.simps)
  finally show ?thesis
    by (simp split: option.splits)
qed

lemma comment_dict_uuid:
  "map_of (comment_dict dataset_name uuid items) ''avf_facebook_id'' = Some uuid"
proof -
  have "''avf_facebook_id'' \<notin> range (\<lambda>k. dataset_name @ ''.'' @ k)"
  proof
    assume "''avf_facebook_id'' \<in> range (\<lambda>k. dataset_name @ ''.'' @ k)"
    then obtain k where "dataset_name @ ''.'' @ k = ''avf_facebook_id''"
      by (auto simp del: append.simps)
    then show False by (rule namespaced_not_uuid_key [THEN notE])
  qed
  from fold_update_other [OF this, of items "[(''avf_facebook_id'', uuid)]"] show ?thesis
    by (simp add: comment_dict_def)
qed

text \<open>One comment.\<close>

lemma py_getitem_Inr: "py_getitem x k = Inr v \<longleftrightarrow> field k x = Some v"
  by (cases x) (auto simp: field_def split: option.splits)

lemma field_update:
  "field k (JObj (AList.update k' v kvs)) = (if k = k' then Some v else map_of kvs k)"
  by (simp add: field_def update_conv')

lemma overwritten_cases:
  "overwritten lib c = c \<or>
   (\<exists>kvs s. c = JObj kvs \<and> reserialised lib c = Some s
      \<and> overwritten lib c = JObj (AList.update ''created_time'' (JStr s) kvs))"
  by (auto simp: overwritten_def the_dict_Some split: option.splits)

lemma overwritten_field:
  "k \<noteq> ''created_time'' \<Longrightarrow> field k (overwritten lib c) = field k c"
  using overwritten_cases [of lib c] by (auto simp: field_update) (simp add: field_def)

lemma overwritten_created_time:
  "reserialised lib c = Some s \<Longrightarrow> field ''created_time'' (overwritten lib c) = Some (JStr s)"
  by (auto simp: overwritten_def reserialised_def field_Some update_conv' split: option.splits)

lemma author_id_overwritten: "author_id (overwritten lib c) = author_id c"
proof -
  have "py_getitem (overwritten lib c) ''from'' = py_getitem c ''from''"
    using overwritten_cases [of lib c] by (auto simp: update_conv')
  then show ?thesis by (simp add: author_id_def)
qed

lemma author_key_Some:
  "author_key c = Some k \<longleftrightarrow> (\<exists>i. author_id c = Inr i \<and> py_key i = Inr k)"
proof
  assume "author_key c = Some k"
  then obtain a i where "field ''from'' c = Some a" "field ''id'' a = Some i" "py_key i = Inr k"
    by (auto simp: author_key_def bind_eq_Some_conv split: option.splits sum.splits)
  then show "\<exists>i. author_id c = Inr i \<and> py_key i = Inr k"
    by (auto simp: author_id_def field_getitem)
next
  assume "\<exists>i. author_id c = Inr i \<and> py_key i = Inr k"
  then obtain i a where "py_getitem c ''from'' = Inr a" "py_getitem a ''id'' = Inr i"
    "py_key i = Inr k"
    by (auto simp: author_id_def split: sum.splits)
  then show "author_key c = Some k"
    by (simp add: author_key_def py_getitem_Inr)
qed

lemma pseudonym_Some:
  "pseudonym lut c = Some uuid \<longleftrightarrow>
     (\<exists>i. author_id c = Inr i \<and> lut_getitem lut i = Inr uuid)"
proof
  assume "pseudonym lut c = Some uuid"
  then obtain k where "author_key c = Some k" "map_of lut k = Some uuid"
    by (auto simp: pseudonym_def bind_eq_Some_conv)
  then show "\<exists>i. author_id c = Inr i \<and> lut_getitem lut i = Inr uuid"
    by (auto simp: author_key_Some lut_getitem_def)
next
  assume "\<exists>i. author_id c = Inr i \<and> lut_getitem lut i = Inr uuid"
  then obtain i where i: "author_id c = Inr i" "lut_getitem lut i = Inr uuid"
    by blast
  from i(2) obtain k where "py_key i = Inr k" "map_of lut k = Some uuid"
    by (cases "py_key i") (auto simp: lut_getitem_def split: option.splits)
  with i(1) have "author_key c = Some k" "map_of lut k = Some uuid"
    by (auto simp: author_key_Some)
  then show "pseudonym lut c = Some uuid"
    by (simp add: pseudonym_def)
qed


lemma convert_comment_ok:
  assumes "valid_timestamp lib c" "pseudonym lut c = Some uuid"
  shows "convert_comment lib usr dataset_name lut n c =
           (Inr (traced_of lib usr dataset_name uuid n (overwritten lib c)), overwritten lib c)"
proof -
  from assms(1) obtain s where s: "reserialised lib c = Some s"
    and v: "validate_utc_iso_string lib s = Inr ()"
    by (auto simp: valid_timestamp_def split: option.splits)
  from s obtain kvs t d where c: "c = JObj kvs" and t: "map_of kvs ''created_time'' = Some t"
    and d: "isoparse lib t = Inr d" and sd: "s = isoformat lib d"
    by (auto simp: reserialised_def field_Some split: option.splits sum.splits)
  let ?c' = "JObj (AList.update ''created_time'' (JStr s) kvs)"
  have o: "overwritten lib c = ?c'"
    using s c by (simp add: overwritten_def)
  from assms(2) obtain i where i: "author_id c = Inr i" "lut_getitem lut i = Inr uuid"
    by (auto simp: pseudonym_Some)
  from i(1) have i': "author_id ?c' = Inr i"
    using author_id_overwritten [of lib c] o by simp
  show ?thesis
    unfolding o
    by (simp add: convert_comment_def c t d sd [symmetric] v i' i(2) traced_of_def)
qed

lemma convert_comment_Inr:
  assumes "convert_comment lib usr dataset_name lut n c = (Inr t, c')"
  shows "valid_timestamp lib c \<and> pseudonym lut c \<noteq> None"
proof -
  from assms obtain ct d where ct: "py_getitem c ''created_time'' = Inr ct"
    and d: "isoparse lib ct = Inr d"
    by (auto simp: convert_comment_def split: sum.splits)
  from ct obtain kvs where c: "c = JObj kvs" and m: "map_of kvs ''created_time'' = Some ct"
    by (auto simp: py_getitem_Inr field_Some)
  have s: "reserialised lib c = Some (isoformat lib d)"
    by (simp add: reserialised_def field_def c m d)
  then have o: "overwritten lib c = JObj (AList.update ''created_time'' (JStr (isoformat lib d)) kvs)"
    by (simp add: overwritten_def c)
  from assms ct d c have v: "validate_utc_iso_string lib (isoformat lib d) = Inr ()"
    by (auto simp: convert_comment_def split: sum.splits)
  from assms ct d c v obtain i uuid where
    "author_id (JObj (AList.update ''created_time'' (JStr (isoformat lib d)) kvs)) = Inr i"
    "lut_getitem lut i = Inr uuid"
    by (auto simp: convert_comment_def split: sum.splits)
  with o have "author_id c = Inr i" "lut_getitem lut i = Inr uuid"
    using author_id_overwritten [of lib c] by simp_all
  then have "pseudonym lut c = Some uuid"
    by (auto simp: pseudonym_Some)
  with s v show ?thesis
    by (simp add: valid_timestamp_def)
qed

lemma convert_comment_invalid:
  assumes "reserialised lib c = Some s" "validate_utc_iso_string lib s = Inl e"
  shows "convert_comment lib usr dataset_name lut n c = (Inl e, overwritten lib c)"
proof -
  from assms(1) obtain kvs t d where c: "c = JObj kvs" and t: "map_of kvs ''created_time'' = Some t"
    and d: "isoparse lib t = Inr d" and sd: "s = isoformat lib d"
    by (auto simp: reserialised_def field_Some split: option.splits sum.splits)
  have o: "overwritten lib c = JObj (AList.update ''created_time'' (JStr s) kvs)"
    using assms(1) c by (simp add: overwritten_def)
  show ?thesis
    unfolding o using assms(2) by (simp add: convert_comment_def c t d sd [symmetric])
qed

lemma convert_comment_snd:
  "snd (convert_comment lib usr dataset_name lut n c) = c
   \<or> snd (convert_comment lib usr dataset_name lut n c) = overwritten lib c"
proof (cases "reserialised lib c")
  case None
  then have "snd (convert_comment lib usr dataset_name lut n c) = c"
    by (auto simp: convert_comment_def reserialised_def py_getitem_Inr
        split: sum.splits option.splits)
  then show ?thesis ..
next
  case (Some s)
  then obtain kvs t d where c: "c = JObj kvs" and t: "map_of kvs ''created_time'' = Some t"
    and d: "isoparse lib t = Inr d" and sd: "s = isoformat lib d"
    by (auto simp: reserialised_def field_Some split: option.splits sum.splits)
  have o: "overwritten lib c = JObj (AList.update ''created_time'' (JStr s) kvs)"
    using Some c by (simp add: overwritten_def)
  have "snd (convert_comment lib usr dataset_name lut n c) = overwritten lib c"
    unfolding o by (simp add: convert_comment_def c t d sd [symmetric] split: sum.splits)
  then show ?thesis ..
qed

text \<open>The loop.\<close>

lemma convert_comments_ok:
  "list_all (\<lambda>c. pseudonym lut c \<noteq> None \<and> valid_timestamp lib c) cs \<Longrightarrow>
   convert_comments lib usr dataset_name lut n cs =
     (Inr (map (\<lambda>(i, c). traced_of lib usr dataset_name (the (pseudonym lut c)) i (overwritten lib c))
             (zip [n ..< n + length cs] cs)),
      map (overwritten lib) cs)"
proof (induction cs arbitrary: n)
  case Nil
  then show ?case by simp
next
  case (Cons c cs)
  from Cons.prems obtain uuid where u: "pseudonym lut c = Some uuid" and v: "valid_timestamp lib c"
    and rest: "list_all (\<lambda>c. pseudonym lut c \<noteq> None \<and> valid_timestamp lib c) cs"
    by auto
  have up: "[n ..< n + length (c # cs)] = n # [Suc n ..< Suc n + length cs]"
    by (simp add: upt_rec)
  show ?case
    unfolding up
    by (simp add: convert_comment_ok [OF v u] Cons.IH [OF rest] u)
qed

lemma convert_comments_Inr:
  "convert_comments lib usr dataset_name lut n cs = (Inr ts, cs') \<Longrightarrow>
   list_all (\<lambda>c. pseudonym lut c \<noteq> None \<and> valid_timestamp lib c) cs"
proof (induction cs arbitrary: n ts cs')
  case Nil
  then show ?case by simp
next
  case (Cons c cs)
  from Cons.prems obtain t c' where c: "convert_comment lib usr dataset_name lut n c = (Inr t, c')"
    by (auto split: prod.splits sum.splits)
  with Cons.prems obtain ts' cs'' where
    "convert_comments lib usr dataset_name lut (Suc n) cs = (Inr ts', cs'')"
    by (auto split: prod.splits sum.splits)
  from Cons.IH [OF this] convert_comment_Inr [OF c] show ?case by simp
qed

lemma convert_comments_stops:
  assumes "list_all (\<lambda>c. pseudonym lut c \<noteq> None \<and> valid_timestamp lib c) before"
    and "convert_comment lib usr dataset_name lut (n + length before) c = (Inl e, c')"
  shows "convert_comments lib usr dataset_name lut n (before @ c # after) =
           (Inl e, map (overwritten lib) before @ c' # after)"
  using assms
proof (induction before arbitrary: n)
  case Nil
  then show ?case by simp
next
  case (Cons b before)
  from Cons.prems(1) obtain uuid where u: "pseudonym lut b = Some uuid"
    and v: "valid_timestamp lib b"
    and rest: "list_all (\<lambda>c. pseudonym lut c \<noteq> None \<and> valid_timestamp lib c) before"
    by auto
  from Cons.prems(2) have "convert_comment lib usr dataset_name lut (Suc n + length before) c = (Inl e, c')"
    by simp
  from Cons.IH [OF rest this] show ?case
    by (simp add: convert_comment_ok [OF v u])
qed

lemma convert_comments_frame:
  "length (snd (convert_comments lib usr dataset_name lut n cs)) = length cs
   \<and> (\<forall>i < length cs. snd (convert_comments lib usr dataset_name lut n cs) ! i = cs ! i
        \<or> snd (convert_comments lib usr dataset_name lut n cs) ! i = overwritten lib (cs ! i))"
proof (induction cs arbitrary: n)
  case Nil
  then show ?case by simp
next
  case (Cons c cs)
  obtain r c' where c: "convert_comment lib usr dataset_name lut n c = (r, c')"
    by (cases "convert_comment lib usr dataset_name lut n c")
  with convert_comment_snd [of lib usr dataset_name lut n c]
  have c': "c' = c \<or> c' = overwritten lib c" by simp
  obtain rs cs' where cs: "convert_comments lib usr dataset_name lut (Suc n) cs = (rs, cs')"
    by (cases "convert_comments lib usr dataset_name lut (Suc n) cs")
  with Cons.IH [of "Suc n"] have l: "length cs' = length cs"
    and f: "\<forall>i < length cs. cs' ! i = cs ! i \<or> cs' ! i = overwritten lib (cs ! i)"
    by simp_all
  have "snd (convert_comments lib usr dataset_name lut n (c # cs)) = c' # cs
        \<or> snd (convert_comments lib usr dataset_name lut n (c # cs)) = c' # cs'"
    by (simp add: c cs split: sum.splits)
  then show ?case
  proof
    assume s: "snd (convert_comments lib usr dataset_name lut n (c # cs)) = c' # cs"
    show ?thesis unfolding s using c' by (auto simp: nth_Cons split: nat.splits)
  next
    assume s: "snd (convert_comments lib usr dataset_name lut n (c # cs)) = c' # cs'"
    show ?thesis unfolding s using c' l f by (auto simp: nth_Cons split: nat.splits)
  qed
qed

lemma facebook_uuids_keys:
  "list_all (\<lambda>c. author_key c \<noteq> None) cs \<Longrightarrow>
   facebook_uuids cs = Inr (set (List.map_filter author_key cs))"
proof (induction cs)
  case Nil
  then show ?case by (simp add: map_filter_simps)
next
  case (Cons c cs)
  from Cons.prems obtain k where k: "author_key c = Some k" by auto
  then obtain i where "author_id c = Inr i" "py_key i = Inr k"
    by (auto simp: author_key_Some)
  with Cons k show ?case
    by (simp add: map_filter_simps)
qed

text \<open>The whole conversion, when the lookup table answers and every comment converts.\<close>

lemma traced_of_uuid:
  "map_of (td_data (traced_of lib usr dataset_name uuid n c')) ''avf_facebook_id'' = Some uuid"
  by (simp add: traced_of_def comment_dict_uuid)

lemma traced_of_field:
  "map_of (td_data (traced_of lib usr dataset_name uuid n c')) (dataset_name @ ''.'' @ k) =
     field k c'"
proof (cases "the_dict c'")
  case None
  with comment_dict_field [of dataset_name uuid "[]" k] show ?thesis
    by (simp add: traced_of_def field_def)
next
  case (Some kvs)
  with comment_dict_field [of dataset_name uuid kvs k] show ?thesis
    by (simp add: traced_of_def field_def)
qed

lemma convert_ok:
  assumes "data_to_uuid_batch (set (List.map_filter author_key raw_comments)) = Inr lut"
    and "list_all (\<lambda>c. pseudonym lut c \<noteq> None \<and> valid_timestamp lib c) raw_comments"
  shows "\<exists>lg'. convert_facebook_comments_to_traced_data lib lg usr dataset_name raw_comments
             data_to_uuid_batch =
           (Inr (map (\<lambda>(i, c). traced_of lib usr dataset_name (the (pseudonym lut c)) i
                                  (overwritten lib c))
                   (zip [0 ..< length raw_comments] raw_comments)),
            map (overwritten lib) raw_comments, lg')"
proof -
  from assms(2) have "list_all (\<lambda>c. author_key c \<noteq> None) raw_comments"
    by (auto simp: list_all_iff pseudonym_def bind_eq_Some_conv)
  then have "facebook_uuids raw_comments = Inr (set (List.map_filter author_key raw_comments))"
    by (rule facebook_uuids_keys)
  with assms(1) convert_comments_ok [OF assms(2), of usr dataset_name 0] show ?thesis
    by (simp add: convert_facebook_comments_to_traced_data_def Let_def)
qed

lemma convert_Inr:
  assumes "convert_facebook_comments_to_traced_data lib lg usr dataset_name raw_comments
             data_to_uuid_batch = (Inr traced_comments, raw_comments', lg')"
  obtains lut where
    "list_all (\<lambda>c. pseudonym lut c \<noteq> None \<and> valid_timestamp lib c) raw_comments"
    "traced_comments =
       map (\<lambda>(i, c). traced_of lib usr dataset_name (the (pseudonym lut c)) i (overwritten lib c))
         (zip [0 ..< length raw_comments] raw_comments)"
    "raw_comments' = map (overwritten lib) raw_comments"
proof -
  from assms obtain ids lut where "facebook_uuids raw_comments = Inr ids"
    "data_to_uuid_batch ids = Inr lut"
    and c: "convert_comments lib usr dataset_name lut 0 raw_comments =
              (Inr traced_comments, raw_comments')"
    by (auto simp: convert_facebook_comments_to_traced_data_def Let_def
        split: sum.splits prod.splits)
  from convert_comments_Inr [OF c]
  have ok: "list_all (\<lambda>c. pseudonym lut c \<noteq> None \<and> valid_timestamp lib c) raw_comments" .
  from convert_comments_ok [OF ok, of usr dataset_name 0] c ok show ?thesis
    by (intro that [of lut]) simp_all
qed

lemma convert_invalid_timestamp:
  assumes "list_all (\<lambda>c. author_key c \<noteq> None) (before @ c # after)"
    and "data_to_uuid_batch (set (List.map_filter author_key (before @ c # after))) = Inr lut"
    and "list_all (\<lambda>c. pseudonym lut c \<noteq> None \<and> valid_timestamp lib c) before"
    and "reserialised lib c = Some s" "validate_utc_iso_string lib s = Inl e"
  shows "\<exists>lg'. convert_facebook_comments_to_traced_data lib lg usr dataset_name
             (before @ c # after) data_to_uuid_batch =
           (Inl e, map (overwritten lib) before @ overwritten lib c # after, lg')"
proof -
  from assms(1) have "facebook_uuids (before @ c # after) =
      Inr (set (List.map_filter author_key (before @ c # after)))"
    by (rule facebook_uuids_keys)
  moreover from convert_comment_invalid [OF assms(4,5)]
  have "convert_comment lib usr dataset_name lut (0 + length before) c =
          (Inl e, overwritten lib c)" .
  from convert_comments_stops [OF assms(3) this]
  have "convert_comments lib usr dataset_name lut 0 (before @ c # after) =
          (Inl e, map (overwritten lib) before @ overwritten lib c # after)" .
  ultimately show ?thesis
    using assms(2) by (simp add: convert_facebook_comments_to_traced_data_def Let_def)
qed

lemma nth_traced:
  assumes "n < length cs"
  shows "map (\<lambda>(i, c). traced_of lib usr dataset_name (the (pseudonym lut c)) i (overwritten lib c))
           (zip [0 ..< length cs] cs) ! n =
         traced_of lib usr dataset_name (the (pseudonym lut (cs ! n))) n (overwritten lib (cs ! n))"
  using assms by simp

text \<open>
  C5. When every comment has an author id, the lookup table returns a dictionary in
  which every author id is present, and every comment has a valid timestamp, the
  conversion returns one traced record for each comment, which maps \<open>avf_facebook_id\<close>
  to the pseudonymous identifier of the author of the comment, and \<open>dataset_name.k\<close>, for
  every key \<open>k\<close>, to what the comment has at \<open>k\<close> when the call has overwritten its
  \<open>created_time\<close>: at every other key, what the comment had when it was passed. When
  the lookup table raises, the conversion raises the same exception.
\<close>

theorem comments_traced_with_pseudonym_and_fields:
  assumes "list_all (\<lambda>c. author_key c \<noteq> None) raw_comments"
  shows
    "(data_to_uuid_batch (set (List.map_filter author_key raw_comments)) = Inr lut
      \<and> list_all (\<lambda>c. pseudonym lut c \<noteq> None \<and> valid_timestamp lib c) raw_comments \<longrightarrow>
      (\<exists>traced_comments raw_comments' lg'.
         convert_facebook_comments_to_traced_data lib lg usr dataset_name raw_comments
             data_to_uuid_batch = (Inr traced_comments, raw_comments', lg')
         \<and> length traced_comments = length raw_comments
         \<and> length raw_comments' = length raw_comments
         \<and> (\<forall>n < length raw_comments.
               map_of (td_data (traced_comments ! n)) ''avf_facebook_id'' =
                 pseudonym lut (raw_comments ! n)
               \<and> (\<forall>k. map_of (td_data (traced_comments ! n)) (dataset_name @ ''.'' @ k) =
                        field k (raw_comments' ! n))
               \<and> (\<forall>k. k \<noteq> ''created_time'' \<longrightarrow>
                        field k (raw_comments' ! n) = field k (raw_comments ! n)))))
     \<and> (data_to_uuid_batch (set (List.map_filter author_key raw_comments)) = Inl e \<longrightarrow>
          fst (convert_facebook_comments_to_traced_data lib lg usr dataset_name raw_comments
                 data_to_uuid_batch) = Inl e)"
proof (intro conjI impI)
  assume a: "data_to_uuid_batch (set (List.map_filter author_key raw_comments)) = Inr lut
      \<and> list_all (\<lambda>c. pseudonym lut c \<noteq> None \<and> valid_timestamp lib c) raw_comments"
  let ?traced = "map (\<lambda>(i, c). traced_of lib usr dataset_name (the (pseudonym lut c)) i
                                  (overwritten lib c))
                   (zip [0 ..< length raw_comments] raw_comments)"
  from a convert_ok [of data_to_uuid_batch raw_comments lut lib lg usr dataset_name]
  obtain lg' where r: "convert_facebook_comments_to_traced_data lib lg usr dataset_name
      raw_comments data_to_uuid_batch = (Inr ?traced, map (overwritten lib) raw_comments, lg')"
    by blast
  have "\<forall>n < length raw_comments.
      map_of (td_data (?traced ! n)) ''avf_facebook_id'' = pseudonym lut (raw_comments ! n)
      \<and> (\<forall>k. map_of (td_data (?traced ! n)) (dataset_name @ ''.'' @ k) =
               field k (map (overwritten lib) raw_comments ! n))
      \<and> (\<forall>k. k \<noteq> ''created_time'' \<longrightarrow>
               field k (map (overwritten lib) raw_comments ! n) = field k (raw_comments ! n))"
  proof (intro allI impI)
    fix n assume n: "n < length raw_comments"
    with a have "pseudonym lut (raw_comments ! n) \<noteq> None"
      by (simp add: list_all_length)
    then have "Some (the (pseudonym lut (raw_comments ! n))) = pseudonym lut (raw_comments ! n)"
      by simp
    with n show "map_of (td_data (?traced ! n)) ''avf_facebook_id'' =
          pseudonym lut (raw_comments ! n)
        \<and> (\<forall>k. map_of (td_data (?traced ! n)) (dataset_name @ ''.'' @ k) =
                 field k (map (overwritten lib) raw_comments ! n))
        \<and> (\<forall>k. k \<noteq> ''created_time'' \<longrightarrow>
                 field k (map (overwritten lib) raw_comments ! n) = field k (raw_comments ! n))"
      by (simp only: nth_traced [OF n] traced_of_uuid traced_of_field nth_map)
         (simp add: overwritten_field)
  qed
  with r show "\<exists>traced_comments raw_comments' lg'.
         convert_facebook_comments_to_traced_data lib lg usr dataset_name raw_comments
             data_to_uuid_batch = (Inr traced_comments, raw_comments', lg')
         \<and> length traced_comments = length raw_comments
         \<and> length raw_comments' = length raw_comments
         \<and> (\<forall>n < length raw_comments.
               map_of (td_data (traced_comments ! n)) ''avf_facebook_id'' =
                 pseudonym lut (raw_comments ! n)
               \<and> (\<forall>k. map_of (td_data (traced_comments ! n)) (dataset_name @ ''.'' @ k) =
                        field k (raw_comments' ! n))
               \<and> (\<forall>k. k \<noteq> ''created_time'' \<longrightarrow>
                        field k (raw_comments' ! n) = field k (raw_comments ! n)))"
    by (intro exI [of _ ?traced] exI [of _ "map (overwritten lib) raw_comments"] exI [of _ lg'])
       simp
next
  assume "data_to_uuid_batch (set (List.map_filter author_key raw_comments)) = Inl e"
  with facebook_uuids_keys [OF assms]
  show "fst (convert_facebook_comments_to_traced_data lib lg usr dataset_name raw_comments
               data_to_uuid_batch) = Inl e"
    by (simp add: convert_facebook_comments_to_traced_data_def Let_def)
qed

text \<open>The example comments, evaluated.\<close>

lemma utc_comments_facts:
  "list_all (\<lambda>c. author_key c \<noteq> None) utc_comments"
  "uuid_table (set (List.map_filter author_key utc_comments)) =
     Inr [(JStr ''1001'', JStr ''avf-facebook-uuid-aaaa''),
          (JStr ''1002'', JStr ''avf-facebook-uuid-bbbb'')]"
  "list_all (\<lambda>c. pseudonym [(JStr ''1001'', JStr ''avf-facebook-uuid-aaaa''),
                             (JStr ''1002'', JStr ''avf-facebook-uuid-bbbb'')] c \<noteq> None) utc_comments"
  by code_simp+

lemma offset_comment_facts:
  "author_key offset_comment \<noteq> None"
  "uuid_table (set (List.map_filter author_key [offset_comment])) =
     Inr [(JStr ''1001'', JStr ''avf-facebook-uuid-aaaa'')]"
  "reserialised pipeline_library offset_comment = Some ''2020-09-07T12:34:56+03:00''"
  "validate_utc_iso_string pipeline_library ''2020-09-07T12:34:56+03:00'' = Inl AssertionError"
  by code_simp+

lemma stranger_comment_facts:
  "author_key stranger_comment \<noteq> None"
  "uuid_table (set (List.map_filter author_key [stranger_comment])) =
     Inl (OtherError ''LookupError'')"
  by code_simp+

lemma utc_comments_valid:
  "list_all (\<lambda>c. pseudonym [(JStr ''1001'', JStr ''avf-facebook-uuid-aaaa''),
                             (JStr ''1002'', JStr ''avf-facebook-uuid-bbbb'')] c \<noteq> None
                  \<and> valid_timestamp pipeline_library c) utc_comments"
  by code_simp

lemma utc_comments_values:
  "length utc_comments = 2"
  "pseudonym [(JStr ''1001'', JStr ''avf-facebook-uuid-aaaa''),
              (JStr ''1002'', JStr ''avf-facebook-uuid-bbbb'')] (utc_comments ! 0) =
     Some (JStr ''avf-facebook-uuid-aaaa'')"
  "pseudonym [(JStr ''1001'', JStr ''avf-facebook-uuid-aaaa''),
              (JStr ''1002'', JStr ''avf-facebook-uuid-bbbb'')] (utc_comments ! 1) =
     Some (JStr ''avf-facebook-uuid-bbbb'')"
  "field ''message'' (utc_comments ! 0) = Some (JStr ''hello'')"
  by code_simp+

theorem comments_traced_with_pseudonym_and_fields_witness:
  "list_all (\<lambda>c. author_key c \<noteq> None) utc_comments
   \<and> uuid_table (set (List.map_filter author_key utc_comments)) =
       Inr [(JStr ''1001'', JStr ''avf-facebook-uuid-aaaa''),
            (JStr ''1002'', JStr ''avf-facebook-uuid-bbbb'')]
   \<and> list_all (\<lambda>c. pseudonym [(JStr ''1001'', JStr ''avf-facebook-uuid-aaaa''),
                                (JStr ''1002'', JStr ''avf-facebook-uuid-bbbb'')] c \<noteq> None
                     \<and> valid_timestamp pipeline_library c) utc_comments
   \<and> (\<exists>traced_comments raw_comments' lg'.
        convert_facebook_comments_to_traced_data pipeline_library [] ''user''
            ''facebook_comments'' utc_comments uuid_table =
          (Inr traced_comments, raw_comments', lg')
        \<and> length traced_comments = 2
        \<and> map_of (td_data (traced_comments ! 0)) ''avf_facebook_id'' =
            Some (JStr ''avf-facebook-uuid-aaaa'')
        \<and> map_of (td_data (traced_comments ! 1)) ''avf_facebook_id'' =
            Some (JStr ''avf-facebook-uuid-bbbb'')
        \<and> map_of (td_data (traced_comments ! 0)) ''facebook_comments.message'' =
            Some (JStr ''hello''))
   \<and> list_all (\<lambda>c. author_key c \<noteq> None) [stranger_comment]
   \<and> uuid_table (set (List.map_filter author_key [stranger_comment])) =
       Inl (OtherError ''LookupError'')
   \<and> fst (convert_facebook_comments_to_traced_data pipeline_library [] ''user''
            ''facebook_comments'' [stranger_comment] uuid_table) =
       Inl (OtherError ''LookupError'')"
proof -
  let ?lut = "[(JStr ''1001'', JStr ''avf-facebook-uuid-aaaa''),
               (JStr ''1002'', JStr ''avf-facebook-uuid-bbbb'')]"
  note known = comments_traced_with_pseudonym_and_fields
    [OF utc_comments_facts(1), where data_to_uuid_batch = uuid_table and lut = ?lut
       and lib = pipeline_library and lg = "[]" and usr = "''user''"
       and dataset_name = "''facebook_comments''", THEN conjunct1, rule_format,
     OF conjI, OF utc_comments_facts(2) utc_comments_valid]
  then obtain traced_comments raw_comments' lg' where
    r: "convert_facebook_comments_to_traced_data pipeline_library [] ''user''
          ''facebook_comments'' utc_comments uuid_table =
        (Inr traced_comments, raw_comments', lg')"
    and l: "length traced_comments = length utc_comments"
    and each: "\<forall>n < length utc_comments.
        map_of (td_data (traced_comments ! n)) ''avf_facebook_id'' = pseudonym ?lut (utc_comments ! n)
        \<and> (\<forall>k. map_of (td_data (traced_comments ! n)) (''facebook_comments'' @ ''.'' @ k) =
                 field k (raw_comments' ! n))
        \<and> (\<forall>k. k \<noteq> ''created_time'' \<longrightarrow>
                 field k (raw_comments' ! n) = field k (utc_comments ! n))"
    by blast
  from each utc_comments_values(1) have
    zero: "map_of (td_data (traced_comments ! 0)) ''avf_facebook_id'' = pseudonym ?lut (utc_comments ! 0)"
    and one: "map_of (td_data (traced_comments ! 1)) ''avf_facebook_id'' = pseudonym ?lut (utc_comments ! 1)"
    and msg: "map_of (td_data (traced_comments ! 0)) (''facebook_comments'' @ ''.'' @ ''message'') =
                field ''message'' (raw_comments' ! 0)"
    and same: "field ''message'' (raw_comments' ! 0) = field ''message'' (utc_comments ! 0)"
    by simp_all
  have key: "''facebook_comments'' @ ''.'' @ ''message'' = ''facebook_comments.message''"
    by simp
  have first: "\<exists>traced_comments raw_comments' lg'.
        convert_facebook_comments_to_traced_data pipeline_library [] ''user''
            ''facebook_comments'' utc_comments uuid_table =
          (Inr traced_comments, raw_comments', lg')
        \<and> length traced_comments = 2
        \<and> map_of (td_data (traced_comments ! 0)) ''avf_facebook_id'' =
            Some (JStr ''avf-facebook-uuid-aaaa'')
        \<and> map_of (td_data (traced_comments ! 1)) ''avf_facebook_id'' =
            Some (JStr ''avf-facebook-uuid-bbbb'')
        \<and> map_of (td_data (traced_comments ! 0)) ''facebook_comments.message'' =
            Some (JStr ''hello'')"
  proof -
    from msg same have "map_of (td_data (traced_comments ! 0)) ''facebook_comments.message'' =
        Some (JStr ''hello'')"
      unfolding key utc_comments_values by (rule trans)
    with r l zero one show ?thesis
      unfolding utc_comments_values by blast
  qed
  have s: "list_all (\<lambda>c. author_key c \<noteq> None) [stranger_comment]"
    using stranger_comment_facts(1) by simp
  note unknown = comments_traced_with_pseudonym_and_fields
    [OF s, where data_to_uuid_batch = uuid_table and e = "OtherError ''LookupError''"
       and lib = pipeline_library and lg = "[]" and usr = "''user''"
       and dataset_name = "''facebook_comments''", THEN conjunct2, rule_format,
     OF stranger_comment_facts(2)]
  from first unknown s show ?thesis
    using utc_comments_facts(1,2) utc_comments_valid stranger_comment_facts(2) by blast
qed

text \<open>
  A comment whose timestamp has an offset of three hours: the string stored as its
  \<open>created_time\<close> keeps that offset, fails the validation for UTC, and the conversion
  raises the assertion error of the validation.
\<close>

theorem offset_timestamp_not_normalised:
  "fst (convert_facebook_comments_to_traced_data pipeline_library [] ''user''
          ''facebook_comments'' [offset_comment] uuid_table) = Inl AssertionError
   \<and> map (field ''created_time'')
         (fst (snd (convert_facebook_comments_to_traced_data pipeline_library [] ''user''
                      ''facebook_comments'' [offset_comment] uuid_table))) =
       [Some (JStr ''2020-09-07T12:34:56+03:00'')]
   \<and> validate_utc_iso_string pipeline_library ''2020-09-07T12:34:56+03:00'' =
       Inl AssertionError"
proof -
  have a: "list_all (\<lambda>c. author_key c \<noteq> None) ([] @ offset_comment # [])"
    using offset_comment_facts(1) by simp
  have t: "uuid_table (set (List.map_filter author_key ([] @ offset_comment # []))) =
      Inr [(JStr ''1001'', JStr ''avf-facebook-uuid-aaaa'')]"
    using offset_comment_facts(2) by simp
  have b: "list_all (\<lambda>c. pseudonym [(JStr ''1001'', JStr ''avf-facebook-uuid-aaaa'')] c \<noteq> None
                          \<and> valid_timestamp pipeline_library c) []"
    by simp
  from convert_invalid_timestamp
    [where data_to_uuid_batch = uuid_table and lg = "[]" and usr = "''user''"
       and dataset_name = "''facebook_comments''", OF a t b offset_comment_facts(3,4)]
  obtain lg' where "convert_facebook_comments_to_traced_data pipeline_library [] ''user''
      ''facebook_comments'' [offset_comment] uuid_table =
      (Inl AssertionError, [overwritten pipeline_library offset_comment], lg')"
    by auto
  with overwritten_created_time [OF offset_comment_facts(3)] offset_comment_facts(4)
  show ?thesis by simp
qed

text \<open>
  C8, as the code has it. The \<open>created_time\<close> of a comment is overwritten with the
  string the library writes for the parsed timestamp, whatever its offset, and that string
  is then validated: when the conversion returns, the \<open>created_time\<close> of every comment, in
  the list passed and in the traced record, is that string and has passed the validation
  for UTC; when the string of a comment fails the validation, and the comments before it
  convert, the conversion raises the exception of the validation and leaves that string in
  the comment.
\<close>

theorem timestamps_reserialised_then_validated:
  "(convert_facebook_comments_to_traced_data lib lg usr dataset_name raw_comments
        data_to_uuid_batch = (Inr traced_comments, raw_comments', lg') \<longrightarrow>
      (\<forall>n < length raw_comments.
         \<exists>s. reserialised lib (raw_comments ! n) = Some s
           \<and> validate_utc_iso_string lib s = Inr ()
           \<and> field ''created_time'' (raw_comments' ! n) = Some (JStr s)
           \<and> map_of (td_data (traced_comments ! n)) (dataset_name @ ''.'' @ ''created_time'') =
               Some (JStr s)))
   \<and> (list_all (\<lambda>c. author_key c \<noteq> None) (before @ c # after)
      \<and> data_to_uuid_batch (set (List.map_filter author_key (before @ c # after))) = Inr lut
      \<and> list_all (\<lambda>c. pseudonym lut c \<noteq> None \<and> valid_timestamp lib c) before
      \<and> reserialised lib c = Some s \<and> validate_utc_iso_string lib s = Inl e \<longrightarrow>
      (\<exists>lg'. convert_facebook_comments_to_traced_data lib lg usr dataset_name
                (before @ c # after) data_to_uuid_batch =
              (Inl e, map (overwritten lib) before @ overwritten lib c # after, lg'))
      \<and> field ''created_time'' (overwritten lib c) = Some (JStr s))"
proof (intro conjI impI allI)
  fix n
  assume r: "convert_facebook_comments_to_traced_data lib lg usr dataset_name raw_comments
        data_to_uuid_batch = (Inr traced_comments, raw_comments', lg')"
    and n: "n < length raw_comments"
  from r obtain lut' where
    ok: "list_all (\<lambda>c. pseudonym lut' c \<noteq> None \<and> valid_timestamp lib c) raw_comments"
    and t: "traced_comments =
       map (\<lambda>(i, c). traced_of lib usr dataset_name (the (pseudonym lut' c)) i (overwritten lib c))
         (zip [0 ..< length raw_comments] raw_comments)"
    and c: "raw_comments' = map (overwritten lib) raw_comments"
    by (rule convert_Inr)
  from ok n have "valid_timestamp lib (raw_comments ! n)"
    by (simp add: list_all_length)
  then obtain s where s: "reserialised lib (raw_comments ! n) = Some s"
    and v: "validate_utc_iso_string lib s = Inr ()"
    by (auto simp: valid_timestamp_def split: option.splits)
  from overwritten_created_time [OF s] n
  have f: "field ''created_time'' (raw_comments' ! n) = Some (JStr s)"
    by (simp add: c)
  have "map_of (td_data (traced_comments ! n)) (dataset_name @ ''.'' @ ''created_time'') =
      field ''created_time'' (overwritten lib (raw_comments ! n))"
    unfolding t by (simp only: nth_traced [OF n] traced_of_field)
  with overwritten_created_time [OF s] s v f
  show "\<exists>s. reserialised lib (raw_comments ! n) = Some s
           \<and> validate_utc_iso_string lib s = Inr ()
           \<and> field ''created_time'' (raw_comments' ! n) = Some (JStr s)
           \<and> map_of (td_data (traced_comments ! n)) (dataset_name @ ''.'' @ ''created_time'') =
               Some (JStr s)"
    by simp
next
  assume a: "list_all (\<lambda>c. author_key c \<noteq> None) (before @ c # after)
      \<and> data_to_uuid_batch (set (List.map_filter author_key (before @ c # after))) = Inr lut
      \<and> list_all (\<lambda>c. pseudonym lut c \<noteq> None \<and> valid_timestamp lib c) before
      \<and> reserialised lib c = Some s \<and> validate_utc_iso_string lib s = Inl e"
  then show "\<exists>lg'. convert_facebook_comments_to_traced_data lib lg usr dataset_name
                (before @ c # after) data_to_uuid_batch =
              (Inl e, map (overwritten lib) before @ overwritten lib c # after, lg')"
    by (intro convert_invalid_timestamp) blast+
next
  assume a: "list_all (\<lambda>c. author_key c \<noteq> None) (before @ c # after)
      \<and> data_to_uuid_batch (set (List.map_filter author_key (before @ c # after))) = Inr lut
      \<and> list_all (\<lambda>c. pseudonym lut c \<noteq> None \<and> valid_timestamp lib c) before
      \<and> reserialised lib c = Some s \<and> validate_utc_iso_string lib s = Inl e"
  then show "field ''created_time'' (overwritten lib c) = Some (JStr s)"
    by (intro overwritten_created_time) blast
qed

theorem timestamps_reserialised_then_validated_witness:
  "(\<exists>traced_comments raw_comments' lg'.
      convert_facebook_comments_to_traced_data pipeline_library [] ''user''
          ''facebook_comments'' utc_comments uuid_table =
        (Inr traced_comments, raw_comments', lg')
      \<and> reserialised pipeline_library (utc_comments ! 0) = Some ''2020-09-07T12:34:56+00:00''
      \<and> validate_utc_iso_string pipeline_library ''2020-09-07T12:34:56+00:00'' = Inr ()
      \<and> field ''created_time'' (raw_comments' ! 0) = Some (JStr ''2020-09-07T12:34:56+00:00'')
      \<and> map_of (td_data (traced_comments ! 0)) (''facebook_comments'' @ ''.'' @ ''created_time'') =
          Some (JStr ''2020-09-07T12:34:56+00:00''))
   \<and> list_all (\<lambda>c. author_key c \<noteq> None) ([] @ offset_comment # [])
   \<and> uuid_table (set (List.map_filter author_key ([] @ offset_comment # []))) =
       Inr [(JStr ''1001'', JStr ''avf-facebook-uuid-aaaa'')]
   \<and> reserialised pipeline_library offset_comment = Some ''2020-09-07T12:34:56+03:00''
   \<and> validate_utc_iso_string pipeline_library ''2020-09-07T12:34:56+03:00'' = Inl AssertionError
   \<and> (\<exists>lg'. convert_facebook_comments_to_traced_data pipeline_library [] ''user''
               ''facebook_comments'' ([] @ offset_comment # []) uuid_table =
             (Inl AssertionError,
              map (overwritten pipeline_library) [] @ overwritten pipeline_library offset_comment # [],
              lg'))
   \<and> field ''created_time'' (overwritten pipeline_library offset_comment) =
       Some (JStr ''2020-09-07T12:34:56+03:00'')"
proof -
  let ?lut = "[(JStr ''1001'', JStr ''avf-facebook-uuid-aaaa''),
               (JStr ''1002'', JStr ''avf-facebook-uuid-bbbb'')]"
  from convert_ok
    [where data_to_uuid_batch = uuid_table and lg = "[]" and usr = "''user''"
       and dataset_name = "''facebook_comments''", OF utc_comments_facts(2) utc_comments_valid]
  obtain traced_comments raw_comments' lg' where
    r: "convert_facebook_comments_to_traced_data pipeline_library [] ''user''
          ''facebook_comments'' utc_comments uuid_table =
        (Inr traced_comments, raw_comments', lg')"
    by blast
  have z: "0 < length utc_comments"
    by (simp add: utc_comments_values(1))
  have s0: "reserialised pipeline_library (utc_comments ! 0) = Some ''2020-09-07T12:34:56+00:00''"
    by code_simp
  note ok = timestamps_reserialised_then_validated
    [where lib = pipeline_library and lg = "[]" and usr = "''user''"
       and dataset_name = "''facebook_comments''" and raw_comments = utc_comments
       and data_to_uuid_batch = uuid_table and traced_comments = traced_comments
       and raw_comments' = raw_comments' and lg' = lg', THEN conjunct1, rule_format, OF r z]
  with s0 have first:
    "validate_utc_iso_string pipeline_library ''2020-09-07T12:34:56+00:00'' = Inr ()
     \<and> field ''created_time'' (raw_comments' ! 0) = Some (JStr ''2020-09-07T12:34:56+00:00'')
     \<and> map_of (td_data (traced_comments ! 0)) (''facebook_comments'' @ ''.'' @ ''created_time'') =
         Some (JStr ''2020-09-07T12:34:56+00:00'')"
    by auto
  have a: "list_all (\<lambda>c. author_key c \<noteq> None) ([] @ offset_comment # [])"
    using offset_comment_facts(1) by simp
  have t: "uuid_table (set (List.map_filter author_key ([] @ offset_comment # []))) =
      Inr [(JStr ''1001'', JStr ''avf-facebook-uuid-aaaa'')]"
    using offset_comment_facts(2) by simp
  have b: "list_all (\<lambda>c. pseudonym [(JStr ''1001'', JStr ''avf-facebook-uuid-aaaa'')] c \<noteq> None
                          \<and> valid_timestamp pipeline_library c) []"
    by simp
  note bad = timestamps_reserialised_then_validated
    [where lib = pipeline_library and lg = "[]" and usr = "''user''"
       and dataset_name = "''facebook_comments''" and data_to_uuid_batch = uuid_table
       and before = "[]" and c = offset_comment and after = "[]"
       and lut = "[(JStr ''1001'', JStr ''avf-facebook-uuid-aaaa'')]"
       and s = "''2020-09-07T12:34:56+03:00''" and e = AssertionError,
     THEN conjunct2, rule_format]
  from bad a t b offset_comment_facts(3,4) have
    "(\<exists>lg'. convert_facebook_comments_to_traced_data pipeline_library [] ''user''
               ''facebook_comments'' ([] @ offset_comment # []) uuid_table =
             (Inl AssertionError,
              map (overwritten pipeline_library) [] @ overwritten pipeline_library offset_comment # [],
              lg'))
     \<and> field ''created_time'' (overwritten pipeline_library offset_comment) =
         Some (JStr ''2020-09-07T12:34:56+03:00'')"
    by blast
  with r first s0 a t offset_comment_facts(3,4) show ?thesis
    by blast
qed

text \<open>
  C9. The conversion changes the comments of the list it is passed, and nothing in them
  but \<open>created_time\<close>: whatever the outcome, the list keeps its length and every comment
  keeps what it has at every other key; when the conversion returns, every comment is the
  comment passed with its \<open>created_time\<close> overwritten by the string the library writes
  for the parsed timestamp.
\<close>

theorem comments_overwritten_in_place:
  assumes "convert_facebook_comments_to_traced_data lib lg usr dataset_name raw_comments
             data_to_uuid_batch = (outcome, raw_comments', lg')"
  shows "length raw_comments' = length raw_comments
    \<and> (\<forall>n < length raw_comments. \<forall>k. k \<noteq> ''created_time'' \<longrightarrow>
          field k (raw_comments' ! n) = field k (raw_comments ! n))
    \<and> ((\<exists>traced_comments. outcome = Inr traced_comments) \<longrightarrow>
          raw_comments' = map (overwritten lib) raw_comments
          \<and> (\<forall>n < length raw_comments.
                \<exists>s. reserialised lib (raw_comments ! n) = Some s
                  \<and> field ''created_time'' (raw_comments' ! n) = Some (JStr s)))"
proof (intro conjI impI)
  have "raw_comments' = raw_comments
        \<or> (\<exists>lut. raw_comments' = snd (convert_comments lib usr dataset_name lut 0 raw_comments))"
  proof (cases "facebook_uuids raw_comments")
    case (Inl e)
    with assms show ?thesis
      by (simp add: convert_facebook_comments_to_traced_data_def Let_def)
  next
    case ids: (Inr ids)
    show ?thesis
    proof (cases "data_to_uuid_batch ids")
      case (Inl e)
      with assms ids show ?thesis
        by (simp add: convert_facebook_comments_to_traced_data_def Let_def)
    next
      case (Inr lut)
      with assms ids have
        "raw_comments' = snd (convert_comments lib usr dataset_name lut 0 raw_comments)"
        by (auto simp: convert_facebook_comments_to_traced_data_def Let_def
            split: sum.splits prod.splits)
      then show ?thesis by blast
    qed
  qed
  then have frame: "length raw_comments' = length raw_comments
      \<and> (\<forall>i < length raw_comments. raw_comments' ! i = raw_comments ! i
            \<or> raw_comments' ! i = overwritten lib (raw_comments ! i))"
    using convert_comments_frame [of lib usr dataset_name _ 0 raw_comments] by auto
  then show "length raw_comments' = length raw_comments" ..
  from frame show "\<forall>n < length raw_comments. \<forall>k. k \<noteq> ''created_time'' \<longrightarrow>
          field k (raw_comments' ! n) = field k (raw_comments ! n)"
    by (auto simp: overwritten_field)
next
  assume "\<exists>traced_comments. outcome = Inr traced_comments"
  then obtain traced_comments where "outcome = Inr traced_comments" ..
  with assms obtain lut where
    ok: "list_all (\<lambda>c. pseudonym lut c \<noteq> None \<and> valid_timestamp lib c) raw_comments"
    and c: "raw_comments' = map (overwritten lib) raw_comments"
    by (auto elim: convert_Inr)
  from c show "raw_comments' = map (overwritten lib) raw_comments" .
  show "\<forall>n < length raw_comments.
          \<exists>s. reserialised lib (raw_comments ! n) = Some s
            \<and> field ''created_time'' (raw_comments' ! n) = Some (JStr s)"
  proof (intro allI impI)
    fix n assume n: "n < length raw_comments"
    with ok have "valid_timestamp lib (raw_comments ! n)"
      by (simp add: list_all_length)
    then obtain s where s: "reserialised lib (raw_comments ! n) = Some s"
      by (auto simp: valid_timestamp_def split: option.splits)
    with overwritten_created_time [OF s] n c
    show "\<exists>s. reserialised lib (raw_comments ! n) = Some s
            \<and> field ''created_time'' (raw_comments' ! n) = Some (JStr s)"
      by simp
  qed
qed

lemma utc_comments_overwritten:
  "map (overwritten pipeline_library) utc_comments =
     [raw_comment ''10_1'' ''1001'' ''2020-09-07T12:34:56+00:00'',
      raw_comment ''10_2'' ''1002'' ''2020-09-08T08:00:00+00:00'']"
  by code_simp

theorem comments_overwritten_in_place_witness:
  "\<exists>traced_comments raw_comments' lg'.
     convert_facebook_comments_to_traced_data pipeline_library [] ''user''
         ''facebook_comments'' utc_comments uuid_table =
       (Inr traced_comments, raw_comments', lg')
     \<and> raw_comments' =
         [raw_comment ''10_1'' ''1001'' ''2020-09-07T12:34:56+00:00'',
          raw_comment ''10_2'' ''1002'' ''2020-09-08T08:00:00+00:00'']
     \<and> length raw_comments' = length utc_comments
     \<and> field ''message'' (raw_comments' ! 1) = field ''message'' (utc_comments ! 1)
     \<and> reserialised pipeline_library (utc_comments ! 1) = Some ''2020-09-08T08:00:00+00:00''
     \<and> field ''created_time'' (raw_comments' ! 1) = Some (JStr ''2020-09-08T08:00:00+00:00'')"
proof -
  from convert_ok
    [where data_to_uuid_batch = uuid_table and lg = "[]" and usr = "''user''"
       and dataset_name = "''facebook_comments''", OF utc_comments_facts(2) utc_comments_valid]
  obtain traced_comments raw_comments' lg' where
    r: "convert_facebook_comments_to_traced_data pipeline_library [] ''user''
          ''facebook_comments'' utc_comments uuid_table =
        (Inr traced_comments, raw_comments', lg')"
    by blast
  have one: "1 < length utc_comments"
    by (simp add: utc_comments_values(1))
  have s1: "reserialised pipeline_library (utc_comments ! 1) = Some ''2020-09-08T08:00:00+00:00''"
    by code_simp
  from comments_overwritten_in_place [OF r] have
    l: "length raw_comments' = length utc_comments"
    and f: "\<forall>n < length utc_comments. \<forall>k. k \<noteq> ''created_time'' \<longrightarrow>
        field k (raw_comments' ! n) = field k (utc_comments ! n)"
    and m: "raw_comments' = map (overwritten pipeline_library) utc_comments"
    and t: "\<forall>n < length utc_comments.
        \<exists>s. reserialised pipeline_library (utc_comments ! n) = Some s
          \<and> field ''created_time'' (raw_comments' ! n) = Some (JStr s)"
    by blast+
  from f one have "field ''message'' (raw_comments' ! 1) = field ''message'' (utc_comments ! 1)"
    by simp
  moreover from t one s1 have
    "field ''created_time'' (raw_comments' ! 1) = Some (JStr ''2020-09-08T08:00:00+00:00'')"
    by auto
  ultimately show ?thesis
    using r l m s1 unfolding utc_comments_overwritten by blast
qed

end
